theory Spec2Isabelle
  imports Complex_Main
begin

section \<open>Scene-graph values\<close>

text \<open>
  The viewer of \<^verbatim>\<open>src/components/PlanetViewer.jsx\<close> is glue over three.js. The part of
  three.js it relies on is modelled here from the library's documented behaviour:
  \<^verbatim>\<open>Vector3\<close>, \<^verbatim>\<open>Box3\<close>, \<^verbatim>\<open>Object3D\<close> (identity, transform, children, \<^verbatim>\<open>traverse\<close>),
  \<^verbatim>\<open>BufferGeometry\<close>, \<^verbatim>\<open>Material\<close> and \<^verbatim>\<open>Texture\<close>. JavaScript numbers are taken as
  real numbers (exact arithmetic); object identity is the numeric \<^verbatim>\<open>id\<close> three.js gives
  every object, geometry, material and texture.
\<close>

datatype Vector3 = Vector3 (vx: real) (vy: real) (vz: real)

definition v_add :: "Vector3 \<Rightarrow> Vector3 \<Rightarrow> Vector3" where
  "v_add a b = Vector3 (vx a + vx b) (vy a + vy b) (vz a + vz b)"

definition v_sub :: "Vector3 \<Rightarrow> Vector3 \<Rightarrow> Vector3" where
  "v_sub a b = Vector3 (vx a - vx b) (vy a - vy b) (vz a - vz b)"

definition v_mul :: "Vector3 \<Rightarrow> Vector3 \<Rightarrow> Vector3" where
  "v_mul a b = Vector3 (vx a * vx b) (vy a * vy b) (vz a * vz b)"

definition v_min :: "Vector3 \<Rightarrow> Vector3 \<Rightarrow> Vector3" where
  "v_min a b = Vector3 (min (vx a) (vx b)) (min (vy a) (vy b)) (min (vz a) (vz b))"

definition v_max :: "Vector3 \<Rightarrow> Vector3 \<Rightarrow> Vector3" where
  "v_max a b = Vector3 (max (vx a) (vx b)) (max (vy a) (vy b)) (max (vz a) (vz b))"

definition multiplyScalar :: "Vector3 \<Rightarrow> real \<Rightarrow> Vector3" where
  "multiplyScalar a k = Vector3 (vx a * k) (vy a * k) (vz a * k)"

definition setScalar :: "real \<Rightarrow> Vector3" where
  "setScalar k = Vector3 k k k"

definition v_zero :: Vector3 where
  "v_zero = Vector3 0 0 0"

definition v_one :: Vector3 where
  "v_one = Vector3 1 1 1"

datatype color_space = NoColorSpace | SRGBColorSpace | LinearSRGBColorSpace

record texture =
  tex_id :: nat
  colorSpace :: color_space
  needsUpdate :: bool

datatype material_kind = LoadedMaterial | MeshStandardMaterial

text \<open>
  A material read from the file is \<open>FromFile i\<close>; the \<^verbatim>\<open>MeshStandardMaterial\<close> the success
  callback constructs for the mesh with object id \<open>i\<close> is \<open>NewFor i\<close>, a material distinct
  from every loaded one.
\<close>

datatype material_id = FromFile nat | NewFor nat

record material =
  mat_id :: material_id
  mat_kind :: material_kind
  mat_map :: "texture option"
  roughness :: real
  metalness :: real
  emissive :: nat

text \<open>
  \<^verbatim>\<open>mesh.material\<close> is absent (\<^verbatim>\<open>undefined\<close>/\<^verbatim>\<open>null\<close>), one material, or an array whose
  entries may themselves be \<^verbatim>\<open>null\<close>.
\<close>

datatype material_slot =
    NoMaterial
  | Single material
  | Multi "material option list"

record geometry =
  geo_id :: nat
  positions :: "Vector3 list"

datatype object3d =
  Object3D (obj_id: nat) (isMesh: bool) (geometry: "geometry option")
    (material: material_slot) (position: Vector3) (scale: Vector3) (rotation_y: real)
    (children: "object3d list")

definition set_position :: "Vector3 \<Rightarrow> object3d \<Rightarrow> object3d" where
  "set_position p obj =
     Object3D (obj_id obj) (isMesh obj) (geometry obj) (material obj) p (scale obj)
       (rotation_y obj) (children obj)"

definition set_scale :: "Vector3 \<Rightarrow> object3d \<Rightarrow> object3d" where
  "set_scale s obj =
     Object3D (obj_id obj) (isMesh obj) (geometry obj) (material obj) (position obj) s
       (rotation_y obj) (children obj)"

definition set_rotation_y :: "real \<Rightarrow> object3d \<Rightarrow> object3d" where
  "set_rotation_y r obj =
     Object3D (obj_id obj) (isMesh obj) (geometry obj) (material obj) (position obj)
       (scale obj) r (children obj)"

definition set_material :: "material_slot \<Rightarrow> object3d \<Rightarrow> object3d" where
  "set_material m obj =
     Object3D (obj_id obj) (isMesh obj) (geometry obj) m (position obj) (scale obj)
       (rotation_y obj) (children obj)"

text \<open>\<^verbatim>\<open>Object3D.traverse(callback)\<close>: the object itself, then each child's subtree, in order.\<close>

fun traverse :: "object3d \<Rightarrow> object3d list" where
  "traverse (Object3D i m g mat p s r cs) =
     Object3D i m g mat p s r cs # concat (map traverse cs)"

section \<open>Calls into three.js and the host\<close>

text \<open>
  Every effect the viewer has outside its own variables is a call, recorded in order:
  releasing a GPU resource, changing the scene's children, handing a file to the loader
  (with the load identifier its callbacks capture, if they capture one), logging, drawing.
\<close>

datatype call =
    GeometryDispose nat
  | TextureDispose nat
  | MaterialDispose material_id
  | SceneRemove nat
  | SceneAdd nat
  | LoaderLoad string "nat option"
  | ConsoleError string
  | ControlsUpdate
  | RendererRender
  | RemoveCanvas

section \<open>The disposal routine\<close>

text \<open>
  \<^verbatim>\<open>disposeObject3D\<close> (PlanetViewer.jsx lines 119-133, the same text in the second
  component variant):
  \<^verbatim>\<open>
  obj.traverse((child) => {
    if (child.isMesh) {
      if (child.geometry) child.geometry.dispose();
      const mats = Array.isArray(child.material) ? child.material : [child.material];
      mats.forEach((m) => {
        if (!m) return;
        if (m.map) m.map.dispose();
        m.dispose();
      });
    }
  });
  \<close>
\<close>

definition mats_of :: "material_slot \<Rightarrow> material option list" where
  "mats_of slot =
     (case slot of
        NoMaterial \<Rightarrow> [None]
      | Single m \<Rightarrow> [Some m]
      | Multi ms \<Rightarrow> ms)"

definition dispose_material :: "material option \<Rightarrow> call list" where
  "dispose_material mo =
     (case mo of
        None \<Rightarrow> []
      | Some m \<Rightarrow>
          (case mat_map m of
             None \<Rightarrow> []
           | Some t \<Rightarrow> [TextureDispose (tex_id t)]) @ [MaterialDispose (mat_id m)])"

definition dispose_child :: "object3d \<Rightarrow> call list" where
  "dispose_child child =
     (if isMesh child then
        (case geometry child of
           None \<Rightarrow> []
         | Some g \<Rightarrow> [GeometryDispose (geo_id g)])
        @ concat (map dispose_material (mats_of (material child)))
      else [])"

definition disposeObject3D :: "object3d \<Rightarrow> call list" where
  "disposeObject3D obj = concat (map dispose_child (traverse obj))"

text \<open>
  The same routine with what can go wrong written out. A method call on a receiver that
  is \<^verbatim>\<open>undefined\<close> or \<^verbatim>\<open>null\<close> throws, and so does reading a property of one; an outcome is
  the calls made and whether the routine was cut short by a throw. \<^verbatim>\<open>if (x)\<close> tests that
  \<open>x\<close> is there; \<^verbatim>\<open>forEach\<close> and \<^verbatim>\<open>traverse\<close> stop at the first throw of their callback.
\<close>

type_synonym outcome = "call list \<times> bool"

definition truthy :: "'a option \<Rightarrow> bool" where
  "truthy x = (case x of None \<Rightarrow> False | Some y \<Rightarrow> True)"

definition method_call :: "'a option \<Rightarrow> ('a \<Rightarrow> call) \<Rightarrow> outcome" where
  "method_call receiver c = (case receiver of None \<Rightarrow> ([], True) | Some x \<Rightarrow> ([c x], False))"

definition property_read :: "'a option \<Rightarrow> outcome" where
  "property_read receiver = (case receiver of None \<Rightarrow> ([], True) | Some x \<Rightarrow> ([], False))"

definition and_then :: "outcome \<Rightarrow> outcome \<Rightarrow> outcome" where
  "and_then a b = (if snd a then a else (fst a @ fst b, snd b))"

fun forEach :: "('a \<Rightarrow> outcome) \<Rightarrow> 'a list \<Rightarrow> outcome" where
  "forEach f [] = ([], False)"
| "forEach f (x # xs) = and_then (f x) (forEach f xs)"

definition map_of_entry :: "material option \<Rightarrow> texture option" where
  "map_of_entry m = (case m of None \<Rightarrow> None | Some x \<Rightarrow> mat_map x)"

definition dispose_entry_outcome :: "material option \<Rightarrow> outcome" where
  "dispose_entry_outcome m =
     (if \<not> truthy m then ([], False)
      else
        and_then (property_read m)
          (and_then
             (if truthy (map_of_entry m)
              then method_call (map_of_entry m) (\<lambda>t. TextureDispose (tex_id t))
              else ([], False))
             (method_call m (\<lambda>x. MaterialDispose (mat_id x)))))"

definition dispose_child_outcome :: "object3d \<Rightarrow> outcome" where
  "dispose_child_outcome child =
     (if isMesh child then
        and_then
          (if truthy (geometry child)
           then method_call (geometry child) (\<lambda>g. GeometryDispose (geo_id g))
           else ([], False))
          (forEach dispose_entry_outcome (mats_of (material child)))
      else ([], False))"

definition disposeObject3D_outcome :: "object3d \<Rightarrow> outcome" where
  "disposeObject3D_outcome obj = forEach dispose_child_outcome (traverse obj)"

section \<open>Bounding boxes\<close>

text \<open>
  A \<^verbatim>\<open>Box3\<close> is empty (\<open>None\<close>, what \<^verbatim>\<open>makeEmpty\<close> leaves) or has a minimum and a
  maximum corner. \<^verbatim>\<open>getSize\<close> and \<^verbatim>\<open>getCenter\<close> answer the zero vector for the empty
  box, as three.js does.
\<close>

type_synonym box3 = "(Vector3 \<times> Vector3) option"

definition expandByPoint :: "Vector3 \<Rightarrow> box3 \<Rightarrow> box3" where
  "expandByPoint p b =
     (case b of
        None \<Rightarrow> Some (p, p)
      | Some (lo, hi) \<Rightarrow> Some (v_min lo p, v_max hi p))"

definition setFromPoints :: "Vector3 list \<Rightarrow> box3" where
  "setFromPoints ps = fold expandByPoint ps None"

definition union_box :: "box3 \<Rightarrow> box3 \<Rightarrow> box3" where
  "union_box a b =
     (case a of
        None \<Rightarrow> b
      | Some (lo, hi) \<Rightarrow>
          (case b of
             None \<Rightarrow> a
           | Some (lo', hi') \<Rightarrow> Some (v_min lo lo', v_max hi hi')))"

definition corners :: "Vector3 \<Rightarrow> Vector3 \<Rightarrow> Vector3 list" where
  "corners lo hi =
     [Vector3 (vx lo) (vy lo) (vz lo), Vector3 (vx lo) (vy lo) (vz hi),
      Vector3 (vx lo) (vy hi) (vz lo), Vector3 (vx lo) (vy hi) (vz hi),
      Vector3 (vx hi) (vy lo) (vz lo), Vector3 (vx hi) (vy lo) (vz hi),
      Vector3 (vx hi) (vy hi) (vz lo), Vector3 (vx hi) (vy hi) (vz hi)]"

text \<open>
  A \<^verbatim>\<open>Matrix4\<close> built by \<^verbatim>\<open>compose(position, quaternion, scale)\<close> is the map it performs
  on points: scale, then rotate, then translate. Of the rotation only the angle about the
  y axis is modelled, the one component the viewer writes.
\<close>

type_synonym matrix4 = "Vector3 \<Rightarrow> Vector3"

definition rotate_y :: "real \<Rightarrow> Vector3 \<Rightarrow> Vector3" where
  "rotate_y a p =
     Vector3 (vx p * cos a + vz p * sin a) (vy p) (vz p * cos a - vx p * sin a)"

definition matrix :: "object3d \<Rightarrow> matrix4" where
  "matrix obj = (\<lambda>p. v_add (position obj) (rotate_y (rotation_y obj) (v_mul (scale obj) p)))"

definition applyMatrix4 :: "matrix4 \<Rightarrow> box3 \<Rightarrow> box3" where
  "applyMatrix4 M b =
     (case b of
        None \<Rightarrow> None
      | Some (lo, hi) \<Rightarrow> setFromPoints (map M (corners lo hi)))"

definition computeBoundingBox :: "geometry \<Rightarrow> box3" where
  "computeBoundingBox g = setFromPoints (positions g)"

text \<open>
  \<^verbatim>\<open>Box3.expandByObject\<close>: the object's world matrix is its parent's times its own; its
  geometry's box, carried to world space, is joined to the result; then its children are
  visited. \<open>world_boxes\<close> lists the boxes joined, \<open>setFromObject\<close> joins them, starting
  from the empty box, for an object without parent.
\<close>

definition geometry_box :: "matrix4 \<Rightarrow> geometry option \<Rightarrow> box3 list" where
  "geometry_box world g =
     (case g of
        None \<Rightarrow> []
      | Some geo \<Rightarrow> [applyMatrix4 world (computeBoundingBox geo)])"

fun world_boxes :: "matrix4 \<Rightarrow> object3d \<Rightarrow> box3 list" where
  "world_boxes parentWorld (Object3D i m g mat p s r cs) =
     geometry_box (parentWorld \<circ> matrix (Object3D i m g mat p s r cs)) g
     @ concat (map (world_boxes (parentWorld \<circ> matrix (Object3D i m g mat p s r cs))) cs)"

definition setFromObject :: "object3d \<Rightarrow> box3" where
  "setFromObject obj = foldl union_box None (world_boxes (\<lambda>p. p) obj)"

definition getSize :: "box3 \<Rightarrow> Vector3" where
  "getSize b = (case b of None \<Rightarrow> v_zero | Some (lo, hi) \<Rightarrow> v_sub hi lo)"

definition getCenter :: "box3 \<Rightarrow> Vector3" where
  "getCenter b =
     (case b of None \<Rightarrow> v_zero | Some (lo, hi) \<Rightarrow> multiplyScalar (v_add lo hi) (1 / 2))"

definition maxDim :: "Vector3 \<Rightarrow> real" where
  "maxDim sz = max (max (vx sz) (vy sz)) (vz sz)"

section \<open>Centre and fit\<close>

text \<open>
  \<^verbatim>\<open>centerAndFit\<close> (PlanetViewer.jsx lines 136-146):
  \<^verbatim>\<open>
  const box = new THREE.Box3().setFromObject(object);
  box.getSize(size); box.getCenter(center);
  object.position.sub(center);
  const maxDim = Math.max(size.x, size.y, size.z);
  const scale = maxDim > 0 ? 1.5 / maxDim : 1;
  object.scale.setScalar(scale);
  \<close>
\<close>

definition fit_scale :: "real \<Rightarrow> real" where
  "fit_scale d = (if d > 0 then (3 / 2) / d else 1)"

definition centerAndFit :: "object3d \<Rightarrow> object3d" where
  "centerAndFit object =
     (let box = setFromObject object;
          sz = getSize box;
          center = getCenter box;
          object1 = set_position (v_sub (position object) center) object;
          k = fit_scale (maxDim sz)
      in set_scale (setScalar k) object1)"

section \<open>Material replacement\<close>

text \<open>
  The traversal of the success callback (PlanetViewer.jsx lines 176-190):
  \<^verbatim>\<open>
  planet.traverse((child) => {
    if (child.isMesh) {
      const map = child.material?.map || null;
      child.material = new THREE.MeshStandardMaterial({
        map, roughness: 0.7, metalness: 0.1, emissive: new THREE.Color(0x000000) });
      if (map) { map.colorSpace = THREE.SRGBColorSpace; map.needsUpdate = true; }
    }
  });
  \<close>
  \<^verbatim>\<open>child.material?.map\<close> is \<^verbatim>\<open>undefined\<close> without a material, the material's texture or
  \<^verbatim>\<open>null\<close> for one material, and for an array of materials the array's own method
  \<^verbatim>\<open>Array.prototype.map\<close>, a function and therefore truthy.
\<close>

datatype map_property = NullMap | TextureMap texture | ArrayPrototypeMap

definition material_map :: "material_slot \<Rightarrow> map_property" where
  "material_map slot =
     (case slot of
        NoMaterial \<Rightarrow> NullMap
      | Single m \<Rightarrow> (case mat_map m of None \<Rightarrow> NullMap | Some t \<Rightarrow> TextureMap t)
      | Multi ms \<Rightarrow> ArrayPrototypeMap)"

definition standard_material :: "nat \<Rightarrow> texture option \<Rightarrow> material" where
  "standard_material i t =
     \<lparr>mat_id = NewFor i, mat_kind = MeshStandardMaterial, mat_map = t,
      roughness = 7 / 10, metalness = 1 / 10, emissive = 0\<rparr>"

text \<open>
  The new material of one mesh. A texture is a value here: the writes to \<^verbatim>\<open>colorSpace\<close> and
  \<^verbatim>\<open>needsUpdate\<close> show in the texture the new material holds. Where the source would store
  the function \<^verbatim>\<open>Array.prototype.map\<close> as the texture, a value no three.js material type
  admits, the result is \<open>None\<close>: the model follows the program no further.
\<close>

definition replacement :: "object3d \<Rightarrow> material_slot option" where
  "replacement child =
     (if isMesh child then
        (case material_map (material child) of
           NullMap \<Rightarrow> Some (Single (standard_material (obj_id child) None))
         | TextureMap t \<Rightarrow>
             Some (Single (standard_material (obj_id child)
               (Some (t\<lparr>colorSpace := SRGBColorSpace, needsUpdate := True\<rparr>))))
         | ArrayPrototypeMap \<Rightarrow> None)
      else Some (material child))"

fun replaceMaterials :: "object3d \<Rightarrow> object3d option" where
  "replaceMaterials (Object3D i m g mat p s r cs) =
     (case replacement (Object3D i m g mat p s r cs) of
        None \<Rightarrow> None
      | Some mat' \<Rightarrow>
          (case those (map replaceMaterials cs) of
             None \<Rightarrow> None
           | Some cs' \<Rightarrow> Some (Object3D i m g mat' p s r cs')))"

section \<open>The viewer\<close>

text \<open>
  The component's variables: the refs (\<^verbatim>\<open>initializedRef\<close>, \<^verbatim>\<open>mountRef\<close> as the container's
  client width and height, \<^verbatim>\<open>sceneRef\<close> as the scene's children, \<^verbatim>\<open>planetRef\<close>), the React
  state \<^verbatim>\<open>loading\<close>, the counter \<^verbatim>\<open>currentLoadId\<close> of the closure around \<^verbatim>\<open>loadPlanet\<close>,
  and what the mount effect sets up (camera aspect as the quotient it is computed from,
  renderer size, resize listener, frame loop). A planet in the scene is the object id of
  its root; the object itself is held by \<^verbatim>\<open>planetRef\<close>. \<open>inflight\<close> lists the loads the
  loader has been given and has not answered, each with the identifier its callbacks
  captured; \<open>calls\<close> is the record of calls made so far, oldest first.

  The click listeners are registered once, by the mount effect, and so all call the
  \<^verbatim>\<open>loadPlanet\<close> of the first render: one closure, one counter. \<^verbatim>\<open>setLoading\<close> is taken to
  write \<open>loading\<close> at once. The counter is a natural number: a JavaScript number
  counts exactly up to \<open>2^53\<close>, far beyond the clicks of any session.
\<close>

datatype scene_child = DirectionalLight | AmbientLight | Planet nat

record viewer =
  initialized :: bool
  mount :: "(nat \<times> nat) option"
  sceneRef :: "scene_child list option"
  cameraAspect :: "(nat \<times> nat) option"
  rendererSize :: "(nat \<times> nat) option"
  resizeListener :: bool
  animating :: bool
  planetRef :: "object3d option"
  loading :: bool
  currentLoadId :: nat
  inflight :: "(nat \<times> string) list"
  calls :: "call list"

definition initial :: "(nat \<times> nat) option \<Rightarrow> viewer" where
  "initial m =
     \<lparr>initialized = False, mount = m, sceneRef = None, cameraAspect = None,
      rendererSize = None, resizeListener = False, animating = False, planetRef = None,
      loading = False, currentLoadId = 0, inflight = [], calls = []\<rparr>"

text \<open>
  \<^verbatim>\<open>Object3D.add\<close> takes the object from its present parent and appends it;
  \<^verbatim>\<open>Object3D.remove\<close> deletes it where \<^verbatim>\<open>indexOf\<close> finds it.
\<close>

definition scene_add :: "nat \<Rightarrow> scene_child list \<Rightarrow> scene_child list" where
  "scene_add i cs = remove1 (Planet i) cs @ [Planet i]"

definition scene_remove :: "nat \<Rightarrow> scene_child list \<Rightarrow> scene_child list" where
  "scene_remove i cs = remove1 (Planet i) cs"

definition planets :: "viewer \<Rightarrow> nat list" where
  "planets v =
     (case sceneRef v of
        None \<Rightarrow> []
      | Some cs \<Rightarrow> concat (map (\<lambda>c. case c of Planet i \<Rightarrow> [i] | _ \<Rightarrow> []) cs))"

text \<open>
  A handler that throws, or that leaves the values modelled, stops the run with the reason;
  so does a callback of a load that is not in flight.
\<close>

datatype stop = TypeError | MapNotATexture | NotInFlight | NotRegistered

text \<open>\<^verbatim>\<open>animate\<close> (lines 68-73) and \<^verbatim>\<open>handleResize\<close> (lines 77-86).\<close>

definition animate :: "viewer \<Rightarrow> viewer" where
  "animate v =
     (let v1 =
        (case planetRef v of
           None \<Rightarrow> v
         | Some p \<Rightarrow> v\<lparr>planetRef := Some (set_rotation_y (rotation_y p + 1 / 1000) p)\<rparr>)
      in v1\<lparr>calls := calls v1 @ [ControlsUpdate, RendererRender]\<rparr>)"

definition handleResize :: "viewer \<Rightarrow> viewer" where
  "handleResize v =
     (case mount v of
        None \<Rightarrow> v
      | Some (w, h) \<Rightarrow> v\<lparr>cameraAspect := Some (w, h), rendererSize := Some (w, h)\<rparr>)"

text \<open>
  The mount effect (lines 29-102): scene, camera, renderer, lights, controls, the first
  \<^verbatim>\<open>animate()\<close>, the resize listener, the click listeners. Reading
  \<^verbatim>\<open>mountRef.current.clientWidth\<close> without a container throws.
\<close>

definition useEffect_mount :: "viewer \<Rightarrow> stop + viewer" where
  "useEffect_mount v =
     (if initialized v then Inr v
      else
        (case mount v of
           None \<Rightarrow> Inl TypeError
         | Some (w, h) \<Rightarrow>
             (let v1 = v\<lparr>initialized := True, sceneRef := Some [],
                         cameraAspect := Some (w, h), rendererSize := Some (w, h)\<rparr>;
                  v2 = v1\<lparr>sceneRef := Some [DirectionalLight, AmbientLight],
                          animating := True\<rparr>;
                  v3 = animate v2
              in Inr (v3\<lparr>resizeListener := True\<rparr>))))"

text \<open>The cleanup the mount effect returns (lines 105-114).\<close>

definition cleanup :: "viewer \<Rightarrow> viewer" where
  "cleanup v =
     (let v1 = v\<lparr>resizeListener := False\<rparr>;
          v2 = (case mount v1 of
                  None \<Rightarrow> v1
                | Some d \<Rightarrow> v1\<lparr>calls := calls v1 @ [RemoveCanvas]\<rparr>)
      in case planetRef v2 of
           None \<Rightarrow> v2
         | Some p \<Rightarrow> v2\<lparr>calls := calls v2 @ disposeObject3D p\<rparr>)"

text \<open>
  \<^verbatim>\<open>loadPlanet\<close> (lines 149-204), the part that runs at the call:
  \<^verbatim>\<open>
  if (!sceneRef.current) return;
  setLoading(true);
  const loadId = ++currentLoadId;
  if (planetRef.current) {
    sceneRef.current.remove(planetRef.current);
    disposeObject3D(planetRef.current);
    planetRef.current = null;
  }
  loader.load(file, onLoad, undefined, onError);
  \<close>
\<close>

definition loadPlanet :: "string \<Rightarrow> viewer \<Rightarrow> viewer" where
  "loadPlanet file v =
     (case sceneRef v of
        None \<Rightarrow> v
      | Some cs \<Rightarrow>
          (let v1 = v\<lparr>loading := True\<rparr>;
               loadId = currentLoadId v1 + 1;
               v2 = v1\<lparr>currentLoadId := loadId\<rparr>;
               v3 = (case planetRef v2 of
                       None \<Rightarrow> v2
                     | Some p \<Rightarrow>
                         v2\<lparr>sceneRef := Some (scene_remove (obj_id p) cs),
                            calls := calls v2 @ [SceneRemove (obj_id p)] @ disposeObject3D p,
                            planetRef := None\<rparr>)
           in v3\<lparr>calls := calls v3 @ [LoaderLoad file (Some loadId)],
                 inflight := inflight v3 @ [(loadId, file)]\<rparr>))"

text \<open>
  The success callback of the load that captured \<open>loadId\<close>:
  \<^verbatim>\<open>
  if (loadId !== currentLoadId) { disposeObject3D(gltf.scene); return; }
  const planet = gltf.scene;
  planet.traverse(...);
  centerAndFit(planet);
  sceneRef.current.add(planet);
  planetRef.current = planet;
  setLoading(false);
  \<close>
  \<^verbatim>\<open>sceneRef.current.add\<close> without a scene throws.
\<close>

definition onLoad :: "nat \<Rightarrow> object3d \<Rightarrow> viewer \<Rightarrow> stop + viewer" where
  "onLoad loadId gltf_scene v =
     (if loadId \<noteq> currentLoadId v then
        Inr (v\<lparr>calls := calls v @ disposeObject3D gltf_scene\<rparr>)
      else
        (case replaceMaterials gltf_scene of
           None \<Rightarrow> Inl MapNotATexture
         | Some planet0 \<Rightarrow>
             (let planet = centerAndFit planet0
              in case sceneRef v of
                   None \<Rightarrow> Inl TypeError
                 | Some cs \<Rightarrow>
                     Inr (v\<lparr>sceneRef := Some (scene_add (obj_id planet) cs),
                            calls := calls v @ [SceneAdd (obj_id planet)],
                            planetRef := Some planet,
                            loading := False\<rparr>))))"

text \<open>
  The failure callback:
  \<^verbatim>\<open>
  if (loadId === currentLoadId) setLoading(false);
  console.error("GLB load error:", err);
  \<close>
\<close>

definition onError :: "nat \<Rightarrow> string \<Rightarrow> viewer \<Rightarrow> viewer" where
  "onError loadId err v =
     (let v1 = (if loadId = currentLoadId v then v\<lparr>loading := False\<rparr> else v)
      in v1\<lparr>calls := calls v1 @ [ConsoleError err]\<rparr>)"

section \<open>Runs of the viewer\<close>

text \<open>
  What the host can make happen: the mount effect, a click (a call of \<^verbatim>\<open>loadPlanet\<close> with
  a catalogue file), the loader answering a load in flight with a scene or with an error
  (each load is answered at most once), a frame, a window resize, a change of the
  container, the unmount. A frame needs the loop started, a resize the listener, the
  cleanup a completed mount effect.
\<close>

datatype event =
    Mount
  | RequestLoad string
  | LoadSuccess nat object3d
  | LoadFailure nat string
  | Frame
  | WindowResize
  | Layout "(nat \<times> nat) option"
  | Unmount

definition answered :: "nat \<Rightarrow> viewer \<Rightarrow> viewer" where
  "answered loadId v = v\<lparr>inflight := filter (\<lambda>l. fst l \<noteq> loadId) (inflight v)\<rparr>"

definition pending :: "nat \<Rightarrow> viewer \<Rightarrow> bool" where
  "pending loadId v = (loadId \<in> set (map fst (inflight v)))"

fun step :: "event \<Rightarrow> viewer \<Rightarrow> stop + viewer" where
  "step Mount v = useEffect_mount v"
| "step (RequestLoad file) v = Inr (loadPlanet file v)"
| "step (LoadSuccess loadId gltf_scene) v =
     (if pending loadId v then onLoad loadId gltf_scene (answered loadId v)
      else Inl NotInFlight)"
| "step (LoadFailure loadId err) v =
     (if pending loadId v then Inr (onError loadId err (answered loadId v))
      else Inl NotInFlight)"
| "step Frame v = (if animating v then Inr (animate v) else Inl NotRegistered)"
| "step WindowResize v =
     (if resizeListener v then Inr (handleResize v) else Inl NotRegistered)"
| "step (Layout m) v = Inr (v\<lparr>mount := m\<rparr>)"
| "step Unmount v = (if animating v then Inr (cleanup v) else Inl NotRegistered)"

fun run :: "event list \<Rightarrow> viewer \<Rightarrow> stop + viewer" where
  "run [] v = Inr v"
| "run (e # es) v = (case step e v of Inl x \<Rightarrow> Inl x | Inr v' \<Rightarrow> run es v')"

text \<open>
  What every run keeps true. The planets in the scene are exactly the one \<^verbatim>\<open>planetRef\<close>
  holds; the loads in flight carry distinct identifiers between 1 and the counter; while
  the load of the current identifier is in flight nothing is displayed, and \<open>loading\<close>
  says just that; the counter is the identifier of the load issued last; there is a scene
  once the effect has run, and only then.
\<close>

definition issued :: "call list \<Rightarrow> nat list" where
  "issued cs = concat (map (\<lambda>c. case c of LoaderLoad f (Some i) \<Rightarrow> [i] | _ \<Rightarrow> []) cs)"

definition last_issued :: "call list \<Rightarrow> nat" where
  "last_issued cs = (case rev (issued cs) of [] \<Rightarrow> 0 | i # _ \<Rightarrow> i)"

definition consistent :: "viewer \<Rightarrow> bool" where
  "consistent v \<longleftrightarrow>
     planets v = (case planetRef v of None \<Rightarrow> [] | Some p \<Rightarrow> [obj_id p]) \<and>
     (\<forall>l \<in> set (inflight v). 0 < fst l \<and> fst l \<le> currentLoadId v) \<and>
     distinct (map fst (inflight v)) \<and>
     (pending (currentLoadId v) v \<longrightarrow> planetRef v = None) \<and>
     (loading v \<longleftrightarrow> pending (currentLoadId v) v) \<and>
     currentLoadId v = last_issued (calls v) \<and>
     (0 < currentLoadId v \<longrightarrow> sceneRef v \<noteq> None) \<and>
     (sceneRef v \<noteq> None \<longleftrightarrow> initialized v)"

section \<open>The other two variants\<close>

text \<open>
  The second component variant has the same \<^verbatim>\<open>disposeObject3D\<close> and \<^verbatim>\<open>centerAndFit\<close>, and
  this \<^verbatim>\<open>loadPlanet\<close>, with no load identifier and no loading flag:
  \<^verbatim>\<open>
  function loadPlanet(file) {
    if (!sceneRef.current) return;
    if (planetRef.current) {
      sceneRef.current.remove(planetRef.current);
      disposeObject3D(planetRef.current);
      planetRef.current = null;
    }
    loader.load(`/models/${file}`,
      (gltf) => {
        const planet = gltf.scene;
        centerAndFit(planet);
        sceneRef.current.add(planet);
        planetRef.current = planet;
      },
      undefined,
      (err) => console.error("GLB load error:", err));
  }
  \<close>
\<close>

definition loadPlanet_v2 :: "string \<Rightarrow> viewer \<Rightarrow> viewer" where
  "loadPlanet_v2 file v =
     (case sceneRef v of
        None \<Rightarrow> v
      | Some cs \<Rightarrow>
          (let v3 = (case planetRef v of
                       None \<Rightarrow> v
                     | Some p \<Rightarrow>
                         v\<lparr>sceneRef := Some (scene_remove (obj_id p) cs),
                           calls := calls v @ [SceneRemove (obj_id p)] @ disposeObject3D p,
                           planetRef := None\<rparr>)
           in v3\<lparr>calls := calls v3 @ [LoaderLoad (''/models/'' @ file) None]\<rparr>))"

definition onLoad_v2 :: "object3d \<Rightarrow> viewer \<Rightarrow> stop + viewer" where
  "onLoad_v2 gltf_scene v =
     (let planet = centerAndFit gltf_scene
      in case sceneRef v of
           None \<Rightarrow> Inl TypeError
         | Some cs \<Rightarrow>
             Inr (v\<lparr>sceneRef := Some (scene_add (obj_id planet) cs),
                    calls := calls v @ [SceneAdd (obj_id planet)],
                    planetRef := Some planet\<rparr>))"

text \<open>
  The vanilla script releases the outgoing planet inline (lines 49-58):
  \<^verbatim>\<open>
  currentPlanet.traverse((child) => {
    if (child.geometry) child.geometry.dispose();
    if (child.material) {
      if (Array.isArray(child.material)) {
        child.material.forEach((m) => m.dispose());
      } else {
        child.material.dispose();
      }
    }
  });
  \<close>
  Calling \<^verbatim>\<open>dispose\<close> on a \<^verbatim>\<open>null\<close> entry of the array throws; the result is the calls made
  and whether the traversal was cut short by that.
\<close>

fun dispose_entries :: "material option list \<Rightarrow> call list \<times> bool" where
  "dispose_entries [] = ([], False)"
| "dispose_entries (None # ms) = ([], True)"
| "dispose_entries (Some m # ms) =
     (let (cs, thrown) = dispose_entries ms in (MaterialDispose (mat_id m) # cs, thrown))"

definition release_child :: "object3d \<Rightarrow> call list \<times> bool" where
  "release_child child =
     (let gs = (case geometry child of None \<Rightarrow> [] | Some g \<Rightarrow> [GeometryDispose (geo_id g)])
      in case material child of
           NoMaterial \<Rightarrow> (gs, False)
         | Single m \<Rightarrow> (gs @ [MaterialDispose (mat_id m)], False)
         | Multi ms \<Rightarrow> (let (cs, thrown) = dispose_entries ms in (gs @ cs, thrown)))"

fun until_throw :: "(call list \<times> bool) list \<Rightarrow> call list \<times> bool" where
  "until_throw [] = ([], False)"
| "until_throw ((cs, thrown) # rest) =
     (if thrown then (cs, True)
      else (let (cs', thrown') = until_throw rest in (cs @ cs', thrown')))"

definition release_inline :: "object3d \<Rightarrow> call list \<times> bool" where
  "release_inline obj = until_throw (map release_child (traverse obj))"

section \<open>Notions the statements use\<close>

text \<open>The object ids of the planets among a scene's children.\<close>

definition planet_ids :: "scene_child list \<Rightarrow> nat list" where
  "planet_ids cs = concat (map (\<lambda>c. case c of Planet i \<Rightarrow> [i] | _ \<Rightarrow> []) cs)"

text \<open>
  What a subtree offers for release, with multiplicity: the geometry of every mesh, the
  materials in every mesh's slot, the textures those materials carry as \<^verbatim>\<open>map\<close>. A
  resource two meshes share is listed twice. The materials in a slot are none for an
  absent material, the one material, or the entries of the array that are not \<^verbatim>\<open>null\<close>, in
  the array's order.
\<close>

definition meshes :: "object3d \<Rightarrow> object3d list" where
  "meshes obj = filter isMesh (traverse obj)"

definition present :: "'a option list \<Rightarrow> 'a list" where
  "present xs = concat (map (\<lambda>x. case x of None \<Rightarrow> [] | Some y \<Rightarrow> [y]) xs)"

definition mesh_geometries :: "object3d \<Rightarrow> nat list" where
  "mesh_geometries obj =
     concat (map (\<lambda>c. case geometry c of None \<Rightarrow> [] | Some g \<Rightarrow> [geo_id g]) (meshes obj))"

definition slot_entries :: "material_slot \<Rightarrow> material list" where
  "slot_entries slot =
     (case slot of
        NoMaterial \<Rightarrow> []
      | Single m \<Rightarrow> [m]
      | Multi ms \<Rightarrow> List.map_filter (\<lambda>e. e) ms)"

definition mesh_materials :: "object3d \<Rightarrow> material list" where
  "mesh_materials obj = concat (map (\<lambda>c. slot_entries (material c)) (meshes obj))"

definition mesh_maps :: "object3d \<Rightarrow> texture list" where
  "mesh_maps obj = present (map mat_map (mesh_materials obj))"

text \<open>
  The releases the specification asks for, in order: mesh by mesh as the traversal meets
  them; for a mesh its geometry if it has one, then the materials of its slot one after
  the other; for a material its texture if it has one, then the material itself.
\<close>

definition material_releases :: "material \<Rightarrow> call list" where
  "material_releases m =
     (case mat_map m of None \<Rightarrow> [] | Some t \<Rightarrow> [TextureDispose (tex_id t)])
     @ [MaterialDispose (mat_id m)]"

definition mesh_releases :: "object3d \<Rightarrow> call list" where
  "mesh_releases c =
     (case geometry c of None \<Rightarrow> [] | Some g \<Rightarrow> [GeometryDispose (geo_id g)])
     @ concat (map material_releases (slot_entries (material c)))"

definition releases :: "object3d \<Rightarrow> call list" where
  "releases obj = concat (map mesh_releases (meshes obj))"

definition child_geometries :: "object3d \<Rightarrow> nat list" where
  "child_geometries c =
     (if isMesh c then (case geometry c of None \<Rightarrow> [] | Some g \<Rightarrow> [geo_id g]) else [])"

definition child_materials :: "object3d \<Rightarrow> material list" where
  "child_materials c = (if isMesh c then present (mats_of (material c)) else [])"

definition is_release :: "call \<Rightarrow> bool" where
  "is_release c =
     (case c of GeometryDispose g \<Rightarrow> True | TextureDispose t \<Rightarrow> True
      | MaterialDispose m \<Rightarrow> True | _ \<Rightarrow> False)"

text \<open>
  The material the specification asks for on a mesh: standard, with the texture of the
  one original material if it has one, tagged sRGB. \<open>no_array_mesh\<close> holds of a scene
  as the glTF loader builds it, one material per mesh.
\<close>

definition kept_map :: "material_slot \<Rightarrow> texture option" where
  "kept_map slot =
     (case slot of
        Single m \<Rightarrow>
          map_option (\<lambda>t. t\<lparr>colorSpace := SRGBColorSpace, needsUpdate := True\<rparr>) (mat_map m)
      | _ \<Rightarrow> None)"

definition is_array :: "material_slot \<Rightarrow> bool" where
  "is_array slot = (case slot of Multi ms \<Rightarrow> True | _ \<Rightarrow> False)"

definition normal_material :: "object3d \<Rightarrow> material_slot" where
  "normal_material c =
     (if isMesh c then Single (standard_material (obj_id c) (kept_map (material c)))
      else material c)"

definition no_array_mesh :: "object3d \<Rightarrow> bool" where
  "no_array_mesh obj = list_all (\<lambda>c. \<not> (isMesh c \<and> is_array (material c))) (traverse obj)"

definition shape :: "object3d \<Rightarrow> nat \<times> bool \<times> geometry option" where
  "shape c = (obj_id c, isMesh c, geometry c)"

text \<open>
  The largest of a box's width, height and depth; an empty box has none, and three.js
  reports its size as zero.
\<close>

definition largest_extent :: "box3 \<Rightarrow> real" where
  "largest_extent b =
     (case b of
        None \<Rightarrow> 0
      | Some (lo, hi) \<Rightarrow> Max {vx hi - vx lo, vy hi - vy lo, vz hi - vz lo})"

text \<open>
  A uniform scaling by \<open>k\<close> followed by a translation by \<open>t\<close>, its action on a box, and
  the map of this kind that \<^verbatim>\<open>centerAndFit\<close> applies to the world positions of an object
  whose own matrix was a pure translation.
\<close>

definition scale_shift :: "real \<Rightarrow> Vector3 \<Rightarrow> matrix4" where
  "scale_shift k t = (\<lambda>p. v_add t (multiplyScalar p k))"

definition map_box :: "matrix4 \<Rightarrow> box3 \<Rightarrow> box3" where
  "map_box f b = (case b of None \<Rightarrow> None | Some (lo, hi) \<Rightarrow> Some (f lo, f hi))"

definition fit_map :: "object3d \<Rightarrow> matrix4" where
  "fit_map obj =
     (let box = setFromObject obj; k = fit_scale (maxDim (getSize box))
      in scale_shift k
           (v_sub (v_sub (position obj) (getCenter box)) (multiplyScalar (position obj) k)))"

section \<open>Sample scenes and runs\<close>

text \<open>
  A scene as the loader delivers it: a group at the origin, unrotated and unscaled, over
  one mesh. \<open>earth\<close> is a textured cube around the origin, \<open>mars\<close> an untextured larger
  one, \<open>comet\<close> a cube from (10, 0, 0) to (12, 2, 2), \<open>speck\<close> a single vertex.
\<close>

definition loaded_material :: "nat \<Rightarrow> texture option \<Rightarrow> material" where
  "loaded_material i t =
     \<lparr>mat_id = FromFile i, mat_kind = LoadedMaterial, mat_map = t,
      roughness = 1, metalness = 0, emissive = 0\<rparr>"

definition mesh_node :: "nat \<Rightarrow> geometry option \<Rightarrow> material_slot \<Rightarrow> object3d" where
  "mesh_node i g mat = Object3D i True g mat v_zero v_one 0 []"

definition group_node :: "nat \<Rightarrow> object3d list \<Rightarrow> object3d" where
  "group_node i cs = Object3D i False None NoMaterial v_zero v_one 0 cs"

definition earth :: object3d where
  "earth =
     group_node 10
       [mesh_node 11 (Some \<lparr>geo_id = 12, positions = [Vector3 (- 1) (- 1) (- 1), Vector3 1 1 1]\<rparr>)
          (Single (loaded_material 13
             (Some \<lparr>tex_id = 14, colorSpace = NoColorSpace, needsUpdate = False\<rparr>)))]"

definition mars :: object3d where
  "mars =
     group_node 20
       [mesh_node 21 (Some \<lparr>geo_id = 22, positions = [Vector3 (- 2) (- 2) (- 2), Vector3 2 2 2]\<rparr>)
          (Single (loaded_material 23 None))]"

definition comet :: object3d where
  "comet =
     group_node 30
       [mesh_node 31 (Some \<lparr>geo_id = 32, positions = [Vector3 10 0 0, Vector3 12 2 2]\<rparr>)
          (Single (loaded_material 33 None))]"

definition speck :: object3d where
  "speck =
     group_node 50
       [mesh_node 51 (Some \<lparr>geo_id = 52, positions = [Vector3 3 4 5]\<rparr>)
          (Single (loaded_material 53 None))]"

text \<open>
  Three boxes that are no cubes, widest along x, along y and along z: \<open>plank\<close> from the
  origin to (6, 1, 2), \<open>slab\<close> to (1, 3, 2), \<open>mast\<close> to (2, 1, 4).
\<close>

definition plank :: object3d where
  "plank =
     group_node 70
       [mesh_node 71 (Some \<lparr>geo_id = 72, positions = [Vector3 0 0 0, Vector3 6 1 2]\<rparr>)
          (Single (loaded_material 73 None))]"

definition slab :: object3d where
  "slab =
     group_node 80
       [mesh_node 81 (Some \<lparr>geo_id = 82, positions = [Vector3 0 0 0, Vector3 1 3 2]\<rparr>)
          (Single (loaded_material 83 None))]"

definition mast :: object3d where
  "mast =
     group_node 90
       [mesh_node 91 (Some \<lparr>geo_id = 92, positions = [Vector3 0 0 0, Vector3 2 1 4]\<rparr>)
          (Single (loaded_material 93 None))]"

text \<open>Two meshes that share one material and, through it, one texture.\<close>

definition twins :: object3d where
  "twins =
     group_node 40
       [mesh_node 41 (Some \<lparr>geo_id = 45, positions = [Vector3 0 0 0, Vector3 1 1 1]\<rparr>)
          (Single (loaded_material 43
             (Some \<lparr>tex_id = 44, colorSpace = NoColorSpace, needsUpdate = False\<rparr>))),
        mesh_node 42 (Some \<lparr>geo_id = 46, positions = [Vector3 2 0 0, Vector3 3 1 1]\<rparr>)
          (Single (loaded_material 43
             (Some \<lparr>tex_id = 44, colorSpace = NoColorSpace, needsUpdate = False\<rparr>)))]"

text \<open>
  Meshes with the optional parts missing: no geometry and no material; an array of two
  materials, the first entry \<^verbatim>\<open>null\<close>, the second without texture.
\<close>

definition sparse :: object3d where
  "sparse =
     group_node 60
       [mesh_node 61 None NoMaterial,
        mesh_node 62 (Some \<lparr>geo_id = 63, positions = []\<rparr>)
          (Multi [None, Some (loaded_material 64 None)])]"

text \<open>
  The viewer after its mount effect in a container of 800 by 600; the same in the second
  variant, whose effect has stored the scene and added the lights when it calls
  \<^verbatim>\<open>loadPlanet("earth.glb")\<close> itself.
\<close>

definition container :: "(nat \<times> nat) option" where
  "container = Some (800, 600)"

definition mounted_v2 :: viewer where
  "mounted_v2 =
     (initial container)\<lparr>sceneRef := Some [DirectionalLight, AmbientLight],
        cameraAspect := container, rendererSize := container\<rparr>"

text \<open>
  Earth is requested, then Mars before Earth has loaded; Earth's scene arrives, then
  Mars's; a frame is drawn. And: the Sun is shown, then Venus is requested and fails.
\<close>

definition swap_run :: "event list" where
  "swap_run =
     [Mount, RequestLoad ''/models/earth.glb'', RequestLoad ''/models/mars.glb'',
      LoadSuccess 1 earth, LoadSuccess 2 mars, Frame]"

definition shown_run :: "event list" where
  "shown_run = [Mount, RequestLoad ''/models/sun.glb'', LoadSuccess 1 earth]"

definition overtaken_run :: "event list" where
  "overtaken_run =
     [Mount, RequestLoad ''/models/earth.glb'', RequestLoad ''/models/mars.glb'']"

section \<open>Bounding boxes under scaling and translation\<close>

lemma scale_shift_min:
  "0 < k \<Longrightarrow> scale_shift k t (v_min a b) = v_min (scale_shift k t a) (scale_shift k t b)"
  by (simp add: scale_shift_def v_min_def v_add_def multiplyScalar_def min_def)

lemma scale_shift_max:
  "0 < k \<Longrightarrow> scale_shift k t (v_max a b) = v_max (scale_shift k t a) (scale_shift k t b)"
  by (simp add: scale_shift_def v_max_def v_add_def multiplyScalar_def max_def)

lemma expandByPoint_scale_shift:
  "0 < k \<Longrightarrow>
   expandByPoint (scale_shift k t p) (map_box (scale_shift k t) b) =
   map_box (scale_shift k t) (expandByPoint p b)"
  by (auto simp: expandByPoint_def map_box_def scale_shift_min scale_shift_max split: option.splits)

lemma fold_expand_scale_shift:
  "0 < k \<Longrightarrow>
   fold expandByPoint (map (scale_shift k t) ps) (map_box (scale_shift k t) b) =
   map_box (scale_shift k t) (fold expandByPoint ps b)"
  by (induction ps arbitrary: b) (simp_all add: expandByPoint_scale_shift)

lemma setFromPoints_scale_shift:
  "0 < k \<Longrightarrow>
   setFromPoints (map (scale_shift k t) ps) = map_box (scale_shift k t) (setFromPoints ps)"
  using fold_expand_scale_shift [of k t ps None] by (simp add: setFromPoints_def map_box_def)

lemma applyMatrix4_scale_shift:
  "0 < k \<Longrightarrow>
   applyMatrix4 (scale_shift k t \<circ> M) b = map_box (scale_shift k t) (applyMatrix4 M b)"
proof (cases b)
  case None
  then show ?thesis by (simp add: applyMatrix4_def map_box_def)
next
  case (Some c)
  assume k: "0 < k"
  obtain lo hi where c: "c = (lo, hi)" by (cases c)
  have "setFromPoints (map (scale_shift k t) (map M (corners lo hi))) =
        map_box (scale_shift k t) (setFromPoints (map M (corners lo hi)))"
    using k by (rule setFromPoints_scale_shift)
  then show ?thesis using Some c by (simp add: applyMatrix4_def)
qed

lemma geometry_box_scale_shift:
  "0 < k \<Longrightarrow>
   geometry_box (scale_shift k t \<circ> M) g = map (map_box (scale_shift k t)) (geometry_box M g)"
  by (cases g) (simp_all add: geometry_box_def applyMatrix4_scale_shift)

lemma world_boxes_scale_shift:
  "0 < k \<Longrightarrow>
   world_boxes (scale_shift k t \<circ> W) obj = map (map_box (scale_shift k t)) (world_boxes W obj)"
proof (induction obj arbitrary: W)
  case (Object3D i m g mat p s r cs)
  define M where "M = W \<circ> matrix (Object3D i m g mat p s r cs)"
  have assoc: "scale_shift k t \<circ> W \<circ> matrix (Object3D i m g mat p s r cs) = scale_shift k t \<circ> M"
    by (simp only: comp_assoc M_def)
  have kids: "map (world_boxes (scale_shift k t \<circ> M)) cs =
        map (\<lambda>c. map (map_box (scale_shift k t)) (world_boxes M c)) cs"
    by (rule map_cong [OF refl]) (rule Object3D.IH [OF _ Object3D.prems])
  have "world_boxes (scale_shift k t \<circ> W) (Object3D i m g mat p s r cs) =
        geometry_box (scale_shift k t \<circ> M) g @ concat (map (world_boxes (scale_shift k t \<circ> M)) cs)"
    by (simp only: world_boxes.simps assoc)
  also have "\<dots> = map (map_box (scale_shift k t)) (geometry_box M g)
        @ concat (map (\<lambda>c. map (map_box (scale_shift k t)) (world_boxes M c)) cs)"
    by (simp only: kids geometry_box_scale_shift [OF Object3D.prems])
  also have "\<dots> = map (map_box (scale_shift k t)) (geometry_box M g @ concat (map (world_boxes M) cs))"
    by (simp add: map_concat comp_def)
  also have "\<dots> = map (map_box (scale_shift k t)) (world_boxes W (Object3D i m g mat p s r cs))"
    by (simp only: world_boxes.simps M_def)
  finally show ?case .
qed

lemma union_box_scale_shift:
  "0 < k \<Longrightarrow>
   union_box (map_box (scale_shift k t) a) (map_box (scale_shift k t) b) =
   map_box (scale_shift k t) (union_box a b)"
  by (auto simp: union_box_def map_box_def scale_shift_min scale_shift_max split: option.splits)

lemma foldl_union_scale_shift:
  "0 < k \<Longrightarrow>
   foldl union_box (map_box (scale_shift k t) a) (map (map_box (scale_shift k t)) bs) =
   map_box (scale_shift k t) (foldl union_box a bs)"
  by (induction bs arbitrary: a) (simp_all add: union_box_scale_shift)

lemma fit_scale_pos: "0 < fit_scale d"
  by (simp add: fit_scale_def)

lemma world_boxes_same_content:
  assumes "geometry a = geometry b" and "children a = children b"
    and "P \<circ> matrix a = scale_shift k t \<circ> (Q \<circ> matrix b)" and "0 < k"
  shows "world_boxes P a = map (map_box (scale_shift k t)) (world_boxes Q b)"
proof -
  obtain i m g mat p s r cs where a: "a = Object3D i m g mat p s r cs" by (cases a)
  obtain i' m' g' mat' p' s' r' cs' where b: "b = Object3D i' m' g' mat' p' s' r' cs'" by (cases b)
  define M where "M = Q \<circ> matrix b"
  have same: "g' = g" "cs' = cs" using assms(1,2) a b by simp_all
  have "world_boxes P a = geometry_box (scale_shift k t \<circ> M) g
          @ concat (map (world_boxes (scale_shift k t \<circ> M)) cs)"
    using assms(3) by (simp add: a M_def)
  also have "\<dots> = map (map_box (scale_shift k t)) (geometry_box M g)
          @ concat (map (\<lambda>c. map (map_box (scale_shift k t)) (world_boxes M c)) cs)"
    using world_boxes_scale_shift [OF assms(4), of t M]
    by (simp add: geometry_box_scale_shift [OF assms(4)] cong: map_cong)
  also have "\<dots> = map (map_box (scale_shift k t)) (geometry_box M g @ concat (map (world_boxes M) cs))"
    by (simp add: map_concat comp_def)
  also have "\<dots> = map (map_box (scale_shift k t)) (world_boxes Q b)"
    by (simp add: b same M_def)
  finally show ?thesis .
qed

lemma matrix_unrotated:
  "rotation_y obj = 0 \<Longrightarrow> scale obj = setScalar k \<Longrightarrow> matrix obj = scale_shift k (position obj)"
  by (rule ext)
     (simp add: matrix_def scale_shift_def rotate_y_def v_mul_def v_add_def multiplyScalar_def
        setScalar_def mult.commute)

lemma setFromObject_centerAndFit:
  assumes "rotation_y obj = 0" and "scale obj = v_one"
  shows "setFromObject (centerAndFit obj) = map_box (fit_map obj) (setFromObject obj)"
proof -
  define k where "k = fit_scale (maxDim (getSize (setFromObject obj)))"
  define c where "c = getCenter (setFromObject obj)"
  define t where "t = v_sub (v_sub (position obj) c) (multiplyScalar (position obj) k)"
  have k: "0 < k" by (simp add: k_def fit_scale_pos)
  have fit: "fit_map obj = scale_shift k t"
    by (simp add: fit_map_def Let_def k_def c_def t_def)
  have new: "centerAndFit obj = set_scale (setScalar k) (set_position (v_sub (position obj) c) obj)"
    by (simp add: centerAndFit_def Let_def k_def c_def)
  have m_old: "matrix obj = scale_shift 1 (position obj)"
    using assms by (intro matrix_unrotated) (simp_all add: v_one_def setScalar_def)
  have m_new: "matrix (centerAndFit obj) = scale_shift k (v_sub (position obj) c)"
    unfolding new using assms(1)
    by (subst matrix_unrotated [of _ k]) (simp_all add: set_scale_def set_position_def)
  have comp: "(\<lambda>p. p) \<circ> matrix (centerAndFit obj) = scale_shift k t \<circ> ((\<lambda>p. p) \<circ> matrix obj)"
    unfolding m_old m_new
    by (rule ext)
       (simp add: scale_shift_def t_def v_add_def v_sub_def multiplyScalar_def algebra_simps)
  have "world_boxes (\<lambda>p. p) (centerAndFit obj) =
        map (map_box (scale_shift k t)) (world_boxes (\<lambda>p. p) obj)"
    by (rule world_boxes_same_content [OF _ _ comp k])
       (simp_all add: new set_scale_def set_position_def)
  then show ?thesis
    using foldl_union_scale_shift [OF k, of t None "world_boxes (\<lambda>p. p) obj"]
    by (simp add: setFromObject_def fit map_box_def)
qed

lemma maxDim_scaled: "0 < k \<Longrightarrow> maxDim (multiplyScalar v k) = maxDim v * k"
  by (simp add: maxDim_def multiplyScalar_def max_def)

lemma getSize_map_box:
  "getSize (map_box (scale_shift k t) b) = multiplyScalar (getSize b) k"
  by (cases b)
     (auto simp: getSize_def map_box_def scale_shift_def v_sub_def v_add_def multiplyScalar_def
        v_zero_def algebra_simps)

lemma getCenter_map_box:
  "getCenter (map_box (scale_shift k t) (Some (lo, hi))) =
   scale_shift k t (getCenter (Some (lo, hi)))"
  by (simp add: getCenter_def map_box_def scale_shift_def v_add_def multiplyScalar_def
        algebra_simps)

lemma scale_centerAndFit:
  "scale (centerAndFit obj) = setScalar (fit_scale (maxDim (getSize (setFromObject obj))))"
  by (simp add: centerAndFit_def Let_def set_scale_def)

lemma fit_size:
  assumes "rotation_y obj = 0" and "scale obj = v_one"
    and "d = maxDim (getSize (setFromObject obj))" and "0 < d"
  shows "maxDim (getSize (setFromObject (centerAndFit obj))) = 3 / 2"
proof -
  have "fit_map obj = scale_shift (fit_scale d)
          (v_sub (v_sub (position obj) (getCenter (setFromObject obj)))
             (multiplyScalar (position obj) (fit_scale d)))"
    by (simp add: fit_map_def Let_def assms(3))
  then have "getSize (setFromObject (centerAndFit obj)) =
             multiplyScalar (getSize (setFromObject obj)) (fit_scale d)"
    by (simp add: setFromObject_centerAndFit [OF assms(1,2)] getSize_map_box)
  then show ?thesis
    using assms(3,4) by (simp add: maxDim_scaled fit_scale_pos) (simp add: fit_scale_def)
qed

lemma fit_centre:
  assumes "rotation_y obj = 0" and "scale obj = v_one"
    and "setFromObject obj = Some (lo, hi)"
    and "k = fit_scale (maxDim (getSize (setFromObject obj)))"
  shows "getCenter (setFromObject (centerAndFit obj)) =
         multiplyScalar (v_sub (getCenter (setFromObject obj)) (position obj)) (k - 1)"
proof -
  have "getCenter (setFromObject (centerAndFit obj)) =
        fit_map obj (getCenter (Some (lo, hi)))"
    by (simp add: setFromObject_centerAndFit [OF assms(1,2)] assms(3) fit_map_def Let_def
          getCenter_map_box)
  then show ?thesis
    by (simp add: fit_map_def Let_def assms(3,4) scale_shift_def v_add_def v_sub_def
          multiplyScalar_def algebra_simps)
qed

text \<open>
  The same for a root that is turned about the y axis: a uniform scaling commutes with the
  rotation, so the box after the call is still the old box scaled and shifted, and the
  largest extent is the old one times the scale.
\<close>

lemma largest_extent_maxDim: "largest_extent b = maxDim (getSize b)"
  by (cases b) (auto simp: largest_extent_def maxDim_def getSize_def v_sub_def v_zero_def)

lemma matrix_fit:
  assumes "scale obj = v_one"
  shows "matrix (set_scale (setScalar k) (set_position (v_sub (position obj) c) obj)) =
         scale_shift k (v_sub (v_sub (position obj) c) (multiplyScalar (position obj) k)) \<circ> matrix obj"
  using assms
  by (intro ext)
     (simp add: matrix_def rotate_y_def set_scale_def set_position_def setScalar_def v_one_def
        scale_shift_def v_add_def v_sub_def v_mul_def multiplyScalar_def algebra_simps)

lemma setFromObject_fit:
  assumes "scale obj = v_one"
  shows "setFromObject (centerAndFit obj) = map_box (fit_map obj) (setFromObject obj)"
proof -
  define k where "k = fit_scale (maxDim (getSize (setFromObject obj)))"
  define c where "c = getCenter (setFromObject obj)"
  define t where "t = v_sub (v_sub (position obj) c) (multiplyScalar (position obj) k)"
  have k: "0 < k" by (simp add: k_def fit_scale_pos)
  have fit: "fit_map obj = scale_shift k t"
    by (simp add: fit_map_def Let_def k_def c_def t_def)
  have new: "centerAndFit obj = set_scale (setScalar k) (set_position (v_sub (position obj) c) obj)"
    by (simp add: centerAndFit_def Let_def k_def c_def)
  have comp: "(\<lambda>p. p) \<circ> matrix (centerAndFit obj) = scale_shift k t \<circ> ((\<lambda>p. p) \<circ> matrix obj)"
    unfolding new t_def using matrix_fit [OF assms, of k c] by (simp add: comp_def)
  have "world_boxes (\<lambda>p. p) (centerAndFit obj) =
        map (map_box (scale_shift k t)) (world_boxes (\<lambda>p. p) obj)"
    by (rule world_boxes_same_content [OF _ _ comp k])
       (simp_all add: new set_scale_def set_position_def)
  then show ?thesis
    using foldl_union_scale_shift [OF k, of t None "world_boxes (\<lambda>p. p) obj"]
    by (simp add: setFromObject_def fit map_box_def)
qed

lemma largest_extent_fit:
  assumes "scale obj = v_one" and "d = largest_extent (setFromObject obj)" and "0 < d"
  shows "largest_extent (setFromObject (centerAndFit obj)) = 3 / 2"
proof -
  have d: "d = maxDim (getSize (setFromObject obj))"
    using assms(2) by (simp add: largest_extent_maxDim)
  have "fit_map obj = scale_shift (fit_scale d)
          (v_sub (v_sub (position obj) (getCenter (setFromObject obj)))
             (multiplyScalar (position obj) (fit_scale d)))"
    by (simp add: fit_map_def Let_def d)
  then have "getSize (setFromObject (centerAndFit obj)) =
             multiplyScalar (getSize (setFromObject obj)) (fit_scale d)"
    by (simp add: setFromObject_fit [OF assms(1)] getSize_map_box)
  then have "maxDim (getSize (setFromObject (centerAndFit obj))) = 3 / 2"
    using d assms(3) by (simp add: maxDim_scaled fit_scale_pos) (simp add: fit_scale_def)
  then show ?thesis by (simp add: largest_extent_maxDim)
qed

section \<open>What every run keeps true: the proof\<close>

subsection \<open>Calls that issue a load\<close>

lemma issued_Nil [simp]: "issued [] = []"
  by (simp add: issued_def)

lemma issued_Cons:
  "issued (c # cs) = (case c of LoaderLoad f (Some i) \<Rightarrow> [i] | _ \<Rightarrow> []) @ issued cs"
  by (simp add: issued_def)

lemma issued_append: "issued (cs @ ds) = issued cs @ issued ds"
  by (simp add: issued_def)

lemma issued_dispose_material: "issued (dispose_material mo) = []"
  by (auto simp: issued_def dispose_material_def split: option.splits)

lemma issued_concat_quiet: "(\<And>x. issued (f x) = []) \<Longrightarrow> issued (concat (map f xs)) = []"
  by (induction xs) (simp_all add: issued_append)

lemma issued_dispose_child: "issued (dispose_child c) = []"
proof -
  have "issued (concat (map dispose_material ms)) = []" for ms
    by (rule issued_concat_quiet) (rule issued_dispose_material)
  then show ?thesis
    by (cases "geometry c") (simp_all add: dispose_child_def issued_append, simp add: issued_def)
qed

lemma issued_disposeObject3D: "issued (disposeObject3D obj) = []"
  by (simp add: disposeObject3D_def issued_concat_quiet issued_dispose_child)

lemma last_issued_quiet: "issued ds = [] \<Longrightarrow> last_issued (cs @ ds) = last_issued cs"
  by (simp add: last_issued_def issued_append)

lemma last_issued_load: "last_issued (cs @ [LoaderLoad f (Some i)]) = i"
  by (simp add: last_issued_def issued_append) (simp add: issued_def)

subsection \<open>Planets among the children of the scene\<close>

lemma planets_alt: "planets v = (case sceneRef v of None \<Rightarrow> [] | Some cs \<Rightarrow> planet_ids cs)"
  by (simp add: planets_def planet_ids_def split: option.splits)

lemma planet_ids_remove1: "planet_ids (remove1 (Planet i) cs) = remove1 i (planet_ids cs)"
  by (induction cs) (auto simp: planet_ids_def split: scene_child.splits)

lemma planet_ids_append: "planet_ids (cs @ ds) = planet_ids cs @ planet_ids ds"
  by (simp add: planet_ids_def)

lemma planet_ids_scene_remove: "planet_ids cs = [i] \<Longrightarrow> planet_ids (scene_remove i cs) = []"
  by (simp add: scene_remove_def planet_ids_remove1)

lemma planet_ids_scene_add: "planet_ids cs = [] \<Longrightarrow> planet_ids (scene_add i cs) = [i]"
  by (simp add: scene_add_def planet_ids_remove1 planet_ids_append) (simp add: planet_ids_def)

lemma obj_id_centerAndFit: "obj_id (centerAndFit obj) = obj_id obj"
  by (simp add: centerAndFit_def Let_def set_scale_def set_position_def)

lemma obj_id_replaceMaterials: "replaceMaterials obj = Some obj' \<Longrightarrow> obj_id obj' = obj_id obj"
  by (cases obj) (auto split: option.splits)

lemma consistent_initial: "consistent (initial m)"
  by (simp add: consistent_def initial_def planets_def pending_def last_issued_def)

subsection \<open>What each handler writes\<close>

lemma ids_answered:
  "set (map fst (filter (\<lambda>l. fst l \<noteq> i) xs)) = set (map fst xs) - {i}"
  by (induction xs) auto

lemma pending_answered: "pending j (answered i v) \<longleftrightarrow> j \<noteq> i \<and> pending j v"
  by (auto simp: pending_def answered_def ids_answered simp del: set_map)

lemma onError_fields:
  "sceneRef (onError i err v) = sceneRef v"
  "planetRef (onError i err v) = planetRef v"
  "currentLoadId (onError i err v) = currentLoadId v"
  "loading (onError i err v) = (loading v \<and> i \<noteq> currentLoadId v)"
  "inflight (onError i err v) = inflight v"
  "calls (onError i err v) = calls v @ [ConsoleError err]"
  "initialized (onError i err v) = initialized v"
  by (simp_all add: onError_def Let_def)

lemma answered_fields:
  "sceneRef (answered i v) = sceneRef v"
  "planetRef (answered i v) = planetRef v"
  "currentLoadId (answered i v) = currentLoadId v"
  "loading (answered i v) = loading v"
  "inflight (answered i v) = filter (\<lambda>l. fst l \<noteq> i) (inflight v)"
  "calls (answered i v) = calls v"
  "initialized (answered i v) = initialized v"
  by (simp_all add: answered_def)

lemma pending_cong: "inflight v' = inflight v \<Longrightarrow> pending j v' = pending j v"
  by (simp add: pending_def)

lemma planets_cong: "sceneRef v' = sceneRef v \<Longrightarrow> planets v' = planets v"
  by (simp add: planets_def)

lemma animate_fields:
  "sceneRef (animate v) = sceneRef v"
  "planetRef (animate v) =
     map_option (\<lambda>p. set_rotation_y (rotation_y p + 1 / 1000) p) (planetRef v)"
  "currentLoadId (animate v) = currentLoadId v"
  "loading (animate v) = loading v"
  "inflight (animate v) = inflight v"
  "calls (animate v) = calls v @ [ControlsUpdate, RendererRender]"
  "initialized (animate v) = initialized v"
  by (simp_all add: animate_def Let_def split: option.splits)

lemma handleResize_fields:
  "sceneRef (handleResize v) = sceneRef v"
  "planetRef (handleResize v) = planetRef v"
  "currentLoadId (handleResize v) = currentLoadId v"
  "loading (handleResize v) = loading v"
  "inflight (handleResize v) = inflight v"
  "calls (handleResize v) = calls v"
  "initialized (handleResize v) = initialized v"
  by (simp_all add: handleResize_def split: option.splits)

lemma cleanup_fields:
  "sceneRef (cleanup v) = sceneRef v"
  "planetRef (cleanup v) = planetRef v"
  "currentLoadId (cleanup v) = currentLoadId v"
  "loading (cleanup v) = loading v"
  "inflight (cleanup v) = inflight v"
  "initialized (cleanup v) = initialized v"
  by (simp_all add: cleanup_def Let_def split: option.splits)

lemma cleanup_calls:
  "calls (cleanup v) =
     calls v @ (case mount v of None \<Rightarrow> [] | Some d \<Rightarrow> [RemoveCanvas])
       @ (case planetRef v of None \<Rightarrow> [] | Some p \<Rightarrow> disposeObject3D p)"
  by (simp add: cleanup_def Let_def split: option.splits)

subsection \<open>Each event keeps the state consistent\<close>

lemma consistentD:
  assumes "consistent v"
  shows "planets v = (case planetRef v of None \<Rightarrow> [] | Some p \<Rightarrow> [obj_id p])"
    and "\<And>l. l \<in> set (inflight v) \<Longrightarrow> 0 < fst l \<and> fst l \<le> currentLoadId v"
    and "distinct (map fst (inflight v))"
    and "pending (currentLoadId v) v \<Longrightarrow> planetRef v = None"
    and "loading v \<longleftrightarrow> pending (currentLoadId v) v"
    and "currentLoadId v = last_issued (calls v)"
    and "0 < currentLoadId v \<Longrightarrow> sceneRef v \<noteq> None"
    and "sceneRef v \<noteq> None \<longleftrightarrow> initialized v"
  using assms unfolding consistent_def by blast+

lemma consistentI:
  assumes "planets v = (case planetRef v of None \<Rightarrow> [] | Some p \<Rightarrow> [obj_id p])"
    and "\<And>l. l \<in> set (inflight v) \<Longrightarrow> 0 < fst l \<and> fst l \<le> currentLoadId v"
    and "distinct (map fst (inflight v))"
    and "pending (currentLoadId v) v \<Longrightarrow> planetRef v = None"
    and "loading v \<longleftrightarrow> pending (currentLoadId v) v"
    and "currentLoadId v = last_issued (calls v)"
    and "0 < currentLoadId v \<Longrightarrow> sceneRef v \<noteq> None"
    and "sceneRef v \<noteq> None \<longleftrightarrow> initialized v"
  shows "consistent v"
  unfolding consistent_def using assms by blast

lemma pending_bounds:
  assumes "consistent v" and "pending i v"
  shows "0 < i \<and> i \<le> currentLoadId v"
proof -
  from assms(2) obtain l where "l \<in> set (inflight v)" and "fst l = i"
    by (auto simp: pending_def)
  with consistentD(2) [OF assms(1)] show ?thesis by blast
qed

lemma consistent_same:
  assumes "consistent v"
    and "sceneRef v' = sceneRef v"
    and "map_option obj_id (planetRef v') = map_option obj_id (planetRef v)"
    and "currentLoadId v' = currentLoadId v" and "loading v' = loading v"
    and "inflight v' = inflight v" and "last_issued (calls v') = last_issued (calls v)"
    and "initialized v' = initialized v"
  shows "consistent v'"
proof -
  note c = consistentD [OF assms(1)]
  have pl: "planets v' = planets v" by (rule planets_cong) (rule assms(2))
  have p: "pending j v' = pending j v" for j by (rule pending_cong) (rule assms(6))
  have r: "(case planetRef v' of None \<Rightarrow> [] | Some p \<Rightarrow> [obj_id p]) =
           (case planetRef v of None \<Rightarrow> [] | Some p \<Rightarrow> [obj_id p])"
    using assms(3) by (cases "planetRef v'"; cases "planetRef v") simp_all
  have n: "planetRef v' = None \<longleftrightarrow> planetRef v = None"
    using assms(3) by (cases "planetRef v'"; cases "planetRef v") simp_all
  show ?thesis
  proof (rule consistentI)
    show "planets v' = (case planetRef v' of None \<Rightarrow> [] | Some p \<Rightarrow> [obj_id p])"
      unfolding pl r by (rule c(1))
    show "0 < fst l \<and> fst l \<le> currentLoadId v'" if "l \<in> set (inflight v')" for l
      using that c(2) [of l] by (simp add: assms(4,6))
    show "distinct (map fst (inflight v'))" unfolding assms(6) by (rule c(3))
    show "planetRef v' = None" if "pending (currentLoadId v') v'"
      using that c(4) by (simp add: p n assms(4))
    show "loading v' \<longleftrightarrow> pending (currentLoadId v') v'"
      using c(5) by (simp add: p assms(4,5))
    show "currentLoadId v' = last_issued (calls v')" using c(6) by (simp add: assms(4,7))
    show "sceneRef v' \<noteq> None" if "0 < currentLoadId v'"
      using that c(7) by (simp add: assms(2,4))
    show "sceneRef v' \<noteq> None \<longleftrightarrow> initialized v'" using c(8) by (simp add: assms(2,8))
  qed
qed

lemma obj_id_set_rotation_y: "obj_id (set_rotation_y r p) = obj_id p"
  by (simp add: set_rotation_y_def)

lemma consistent_animate: "consistent v \<Longrightarrow> consistent (animate v)"
  by (rule consistent_same [of v])
     (simp_all add: animate_fields last_issued_quiet issued_Cons option.map_comp comp_def
        obj_id_set_rotation_y)

lemma consistent_handleResize: "consistent v \<Longrightarrow> consistent (handleResize v)"
  by (rule consistent_same [of v]) (simp_all add: handleResize_fields)

lemma consistent_layout: "consistent v \<Longrightarrow> consistent (v\<lparr>mount := m\<rparr>)"
  by (rule consistent_same [of v]) simp_all

lemma consistent_cleanup: "consistent v \<Longrightarrow> consistent (cleanup v)"
  by (rule consistent_same [of v])
     (simp_all add: cleanup_fields cleanup_calls last_issued_quiet issued_append
        issued_disposeObject3D issued_Cons split: option.splits)

lemma consistent_answered:
  assumes "consistent v"
    and "sceneRef v' = sceneRef v" and "planetRef v' = planetRef v"
    and "currentLoadId v' = currentLoadId v"
    and "loading v' = (loading v \<and> i \<noteq> currentLoadId v)"
    and "inflight v' = filter (\<lambda>l. fst l \<noteq> i) (inflight v)"
    and "last_issued (calls v') = last_issued (calls v)"
    and "initialized v' = initialized v"
  shows "consistent v'"
proof -
  note c = consistentD [OF assms(1)]
  have pl: "planets v' = planets v" by (rule planets_cong) (rule assms(2))
  have p: "pending j v' \<longleftrightarrow> j \<noteq> i \<and> pending j v" for j
    by (auto simp: pending_def assms(6) ids_answered simp del: set_map)
  show ?thesis
  proof (rule consistentI)
    show "planets v' = (case planetRef v' of None \<Rightarrow> [] | Some p \<Rightarrow> [obj_id p])"
      unfolding pl assms(3) by (rule c(1))
    show "0 < fst l \<and> fst l \<le> currentLoadId v'" if "l \<in> set (inflight v')" for l
      using that c(2) [of l] by (simp add: assms(4,6))
    show "distinct (map fst (inflight v'))"
      unfolding assms(6) using c(3) by (rule distinct_map_filter)
    show "planetRef v' = None" if "pending (currentLoadId v') v'"
      using that c(4) by (simp add: p assms(3,4))
    show "loading v' \<longleftrightarrow> pending (currentLoadId v') v'"
      using c(5) by (auto simp: p assms(4,5))
    show "currentLoadId v' = last_issued (calls v')" using c(6) by (simp add: assms(4,7))
    show "sceneRef v' \<noteq> None" if "0 < currentLoadId v'"
      using that c(7) by (simp add: assms(2,4))
    show "sceneRef v' \<noteq> None \<longleftrightarrow> initialized v'" using c(8) by (simp add: assms(2,8))
  qed
qed

lemma consistent_onError:
  "consistent v \<Longrightarrow> consistent (onError i err (answered i v))"
  by (rule consistent_answered [of v _ i])
     (simp_all add: onError_fields answered_fields last_issued_quiet issued_Cons)

lemma loadPlanet_no_scene: "sceneRef v = None \<Longrightarrow> loadPlanet file v = v"
  by (simp add: loadPlanet_def)

lemma loadPlanet_fields:
  assumes "sceneRef v = Some cs"
  shows "sceneRef (loadPlanet file v) =
           Some (case planetRef v of None \<Rightarrow> cs | Some p \<Rightarrow> scene_remove (obj_id p) cs)"
    and "planetRef (loadPlanet file v) = None"
    and "currentLoadId (loadPlanet file v) = currentLoadId v + 1"
    and "loading (loadPlanet file v) = True"
    and "inflight (loadPlanet file v) = inflight v @ [(currentLoadId v + 1, file)]"
    and "calls (loadPlanet file v) =
           calls v @ (case planetRef v of None \<Rightarrow> []
                      | Some p \<Rightarrow> SceneRemove (obj_id p) # disposeObject3D p)
             @ [LoaderLoad file (Some (currentLoadId v + 1))]"
    and "initialized (loadPlanet file v) = initialized v"
  using assms by (simp_all add: loadPlanet_def Let_def split: option.splits)

lemma consistent_loadPlanet:
  assumes "consistent v"
  shows "consistent (loadPlanet file v)"
proof (cases "sceneRef v")
  case None
  then show ?thesis using assms by (simp add: loadPlanet_no_scene)
next
  case (Some cs)
  note c = consistentD [OF assms]
  let ?v = "loadPlanet file v"
  note f = loadPlanet_fields [OF Some]
  have ids: "planet_ids cs = (case planetRef v of None \<Rightarrow> [] | Some p \<Rightarrow> [obj_id p])"
    using c(1) Some by (simp add: planets_alt)
  show ?thesis
  proof (rule consistentI)
    show "planets ?v = (case planetRef ?v of None \<Rightarrow> [] | Some p \<Rightarrow> [obj_id p])"
      using ids by (simp add: planets_alt f planet_ids_scene_remove split: option.splits)
    show "0 < fst l \<and> fst l \<le> currentLoadId ?v" if "l \<in> set (inflight ?v)" for l
      using that c(2) [of l] by (auto simp: f)
    have "currentLoadId v + 1 \<notin> set (map fst (inflight v))"
      using c(2) by fastforce
    then show "distinct (map fst (inflight ?v))" using c(3) by (simp add: f)
    show "planetRef ?v = None" by (simp add: f)
    show "loading ?v \<longleftrightarrow> pending (currentLoadId ?v) ?v" by (simp add: f pending_def)
    have "last_issued ((calls v @ (case planetRef v of None \<Rightarrow> []
              | Some p \<Rightarrow> SceneRemove (obj_id p) # disposeObject3D p))
            @ [LoaderLoad file (Some (currentLoadId v + 1))]) = currentLoadId v + 1"
      by (rule last_issued_load)
    then show "currentLoadId ?v = last_issued (calls ?v)" by (simp add: f)
    show "sceneRef ?v \<noteq> None" by (simp add: f)
    show "sceneRef ?v \<noteq> None \<longleftrightarrow> initialized ?v" using c(8) Some by (simp add: f)
  qed
qed

lemma onLoad_stale:
  "loadId \<noteq> currentLoadId v \<Longrightarrow>
   onLoad loadId n v = Inr (v\<lparr>calls := calls v @ disposeObject3D n\<rparr>)"
  by (simp add: onLoad_def)

lemma onLoad_current:
  assumes "onLoad (currentLoadId v) n v = Inr v'"
  obtains n0 cs where "replaceMaterials n = Some n0" and "sceneRef v = Some cs"
    and "v' = v\<lparr>sceneRef := Some (scene_add (obj_id n) cs),
               calls := calls v @ [SceneAdd (obj_id n)],
               planetRef := Some (centerAndFit n0), loading := False\<rparr>"
  using assms
  by (auto simp: onLoad_def Let_def obj_id_centerAndFit obj_id_replaceMaterials
        split: option.splits)

lemma consistent_onLoad:
  assumes "consistent v" and "pending i v" and "onLoad i n (answered i v) = Inr v'"
  shows "consistent v'"
proof (cases "i = currentLoadId v")
  case False
  then have v': "v' = (answered i v)\<lparr>calls := calls v @ disposeObject3D n\<rparr>"
    using assms(3) by (simp add: onLoad_stale answered_fields)
  show ?thesis
    by (rule consistent_answered [OF assms(1), of _ i])
       (simp_all add: v' answered_fields False last_issued_quiet issued_disposeObject3D)
next
  case True
  note c = consistentD [OF assms(1)]
  have cur: "currentLoadId (answered i v) = i" using True by (simp add: answered_fields)
  have none: "planetRef v = None" using c(4) assms(2) True by simp
  have empty: "planets v = []" using c(1) none by simp
  from assms(3) obtain n0 cs where n0: "replaceMaterials n = Some n0"
    and cs: "sceneRef v = Some cs"
    and v': "v' = (answered i v)\<lparr>sceneRef := Some (scene_add (obj_id n) cs),
                calls := calls v @ [SceneAdd (obj_id n)],
                planetRef := Some (centerAndFit n0), loading := False\<rparr>"
    using onLoad_current [of "answered i v" n v'] cur by (auto simp: answered_fields)
  have ids: "planet_ids cs = []" using empty cs by (simp add: planets_alt)
  have p: "pending j v' \<longleftrightarrow> j \<noteq> i \<and> pending j v" for j
    by (auto simp: v' pending_def answered_fields ids_answered simp del: set_map)
  have oid: "obj_id (centerAndFit n0) = obj_id n"
    using n0 by (simp add: obj_id_centerAndFit obj_id_replaceMaterials)
  show ?thesis
  proof (rule consistentI)
    show "planets v' = (case planetRef v' of None \<Rightarrow> [] | Some p \<Rightarrow> [obj_id p])"
      by (simp add: planets_alt v' planet_ids_scene_add [OF ids] oid)
    show "0 < fst l \<and> fst l \<le> currentLoadId v'" if "l \<in> set (inflight v')" for l
      using that c(2) [of l] by (simp add: v' answered_fields)
    show "distinct (map fst (inflight v'))"
      using c(3) by (simp add: v' answered_fields distinct_map_filter)
    show "planetRef v' = None" if "pending (currentLoadId v') v'"
      using that True by (simp add: p) (simp add: v' answered_fields)
    have "currentLoadId v' = i" using True by (simp add: v' answered_fields)
    then show "loading v' \<longleftrightarrow> pending (currentLoadId v') v'"
      by (simp add: p) (simp add: v')
    show "currentLoadId v' = last_issued (calls v')"
      using c(6) by (simp add: v' answered_fields last_issued_quiet issued_Cons)
    show "sceneRef v' \<noteq> None" by (simp add: v')
    show "sceneRef v' \<noteq> None \<longleftrightarrow> initialized v'"
      using c(8) cs by (simp add: v' answered_fields)
  qed
qed

lemma consistent_mount:
  assumes "consistent v" and "useEffect_mount v = Inr v'"
  shows "consistent v'"
proof (cases "initialized v")
  case True
  then show ?thesis using assms by (simp add: useEffect_mount_def)
next
  case False
  note c = consistentD [OF assms(1)]
  have ns: "sceneRef v = None" using c(8) False by simp
  have z: "currentLoadId v = 0" using c(7) ns by (cases "currentLoadId v") simp_all
  have np: "planetRef v = None"
    using c(1) ns by (cases "planetRef v") (simp_all add: planets_def)
  from assms(2) False obtain w h where
    v': "v' = (animate (v\<lparr>initialized := True, sceneRef := Some [],
                 cameraAspect := Some (w, h), rendererSize := Some (w, h),
                 sceneRef := Some [DirectionalLight, AmbientLight], animating := True\<rparr>))
               \<lparr>resizeListener := True\<rparr>"
    by (auto simp: useEffect_mount_def Let_def split: option.splits)
  have e: "inflight v = []"
  proof (cases "inflight v")
    case (Cons l ls)
    then have "l \<in> set (inflight v)" by simp
    from c(2) [OF this] z show ?thesis by auto
  qed simp
  have l: "loading v = False" using c(5) by (simp add: pending_def e)
  have li: "last_issued (calls v) = 0" using c(6) z by simp
  show ?thesis
  proof (rule consistentI)
    show "planets v' = (case planetRef v' of None \<Rightarrow> [] | Some p \<Rightarrow> [obj_id p])"
      by (simp add: v' planets_def animate_fields np)
    show "0 < fst l \<and> fst l \<le> currentLoadId v'" if "l \<in> set (inflight v')" for l
      using that by (simp add: v' animate_fields e)
    show "distinct (map fst (inflight v'))" by (simp add: v' animate_fields e)
    show "planetRef v' = None" by (simp add: v' animate_fields np)
    show "loading v' \<longleftrightarrow> pending (currentLoadId v') v'"
      by (simp add: v' animate_fields pending_def e l)
    show "currentLoadId v' = last_issued (calls v')"
      by (simp add: v' animate_fields last_issued_quiet issued_Cons li z)
    show "sceneRef v' \<noteq> None" by (simp add: v' animate_fields)
    show "sceneRef v' \<noteq> None \<longleftrightarrow> initialized v'" by (simp add: v' animate_fields)
  qed
qed

lemma consistent_step:
  assumes "consistent v" and "step e v = Inr v'"
  shows "consistent v'"
proof (cases e)
  case Mount
  then show ?thesis using assms by (simp add: consistent_mount)
next
  case (RequestLoad f)
  then show ?thesis using assms by (auto simp: consistent_loadPlanet)
next
  case (LoadSuccess i n)
  then show ?thesis using assms by (auto simp: consistent_onLoad split: if_splits)
next
  case (LoadFailure i err)
  then show ?thesis using assms by (auto simp: consistent_onError split: if_splits)
next
  case Frame
  then show ?thesis using assms by (auto simp: consistent_animate split: if_splits)
next
  case WindowResize
  then show ?thesis using assms by (auto simp: consistent_handleResize split: if_splits)
next
  case (Layout m)
  then show ?thesis using assms by (auto simp: consistent_layout)
next
  case Unmount
  then show ?thesis using assms by (auto simp: consistent_cleanup split: if_splits)
qed

lemma consistent_run: "run es v = Inr v' \<Longrightarrow> consistent v \<Longrightarrow> consistent v'"
proof (induction es arbitrary: v)
  case Nil
  then show ?case by simp
next
  case (Cons e es)
  then obtain v1 where s: "step e v = Inr v1" and r: "run es v1 = Inr v'"
    by (auto split: sum.splits)
  from Cons.prems(2) s have "consistent v1" by (rule consistent_step)
  with r show ?case by (rule Cons.IH)
qed

section \<open>Counting releases\<close>

lemma count_list_concat:
  "count_list (concat xss) x = sum_list (map (\<lambda>xs. count_list xs x) xss)"
  by (induction xss) simp_all

lemma count_dispose_material:
  "count_list (dispose_material e) (MaterialDispose m) = count_list (map mat_id (present [e])) m"
  "count_list (dispose_material e) (TextureDispose t) =
     count_list (map tex_id (present (map mat_map (present [e])))) t"
  "count_list (dispose_material e) (GeometryDispose g) = 0"
  by (auto simp: dispose_material_def present_def split: option.splits)

lemma present_Cons: "present (x # xs) = present [x] @ present xs"
  by (simp add: present_def)

lemma present_append: "present (xs @ ys) = present xs @ present ys"
  by (simp add: present_def)

lemma present_Nil: "present [] = []"
  by (simp add: present_def)

lemma count_dispose_materials_m:
  "count_list (concat (map dispose_material es)) (MaterialDispose m) =
     count_list (map mat_id (present es)) m"
proof (induction es)
  case Nil
  show ?case by (simp add: present_Nil)
next
  case (Cons e es)
  then show ?case by (subst present_Cons) (simp add: count_dispose_material)
qed

lemma count_dispose_materials_t:
  "count_list (concat (map dispose_material es)) (TextureDispose t) =
     count_list (map tex_id (present (map mat_map (present es)))) t"
proof (induction es)
  case Nil
  show ?case by (simp add: present_Nil)
next
  case (Cons e es)
  then show ?case
    by (subst present_Cons) (simp add: count_dispose_material present_append)
qed

lemma count_dispose_materials_g:
  "count_list (concat (map dispose_material es)) (GeometryDispose g) = 0"
  by (induction es) (simp_all add: count_dispose_material)

lemma dispose_child_alt:
  "dispose_child c =
     (if isMesh c then map GeometryDispose (child_geometries c)
        @ concat (map dispose_material (mats_of (material c))) else [])"
proof (cases "geometry c")
  case None
  then have "child_geometries c = []" by (simp add: child_geometries_def)
  moreover have "dispose_child c =
      (if isMesh c then concat (map dispose_material (mats_of (material c))) else [])"
    using None by (simp add: dispose_child_def)
  ultimately show ?thesis by simp
next
  case (Some a)
  then have "child_geometries c = (if isMesh c then [geo_id a] else [])"
    by (simp add: child_geometries_def)
  moreover have "dispose_child c =
      (if isMesh c then GeometryDispose (geo_id a)
         # concat (map dispose_material (mats_of (material c))) else [])"
    using Some by (simp add: dispose_child_def)
  ultimately show ?thesis by simp
qed

lemma count_list_map_inj: "inj f \<Longrightarrow> count_list (map f xs) (f x) = count_list xs x"
  by (induction xs) (auto simp: inj_def)

lemma count_list_absent: "x \<notin> set xs \<Longrightarrow> count_list xs x = 0"
  by (induction xs) auto

lemma count_dispose_child_geometry:
  "count_list (dispose_child c) (GeometryDispose g) = count_list (child_geometries c) g"
proof (cases "isMesh c")
  case True
  have 1: "count_list (map GeometryDispose gs) (GeometryDispose g) = count_list gs g" for gs
    by (induction gs) auto
  have "count_list (dispose_child c) (GeometryDispose g) =
        count_list (map GeometryDispose (child_geometries c)) (GeometryDispose g)
        + count_list (concat (map dispose_material (mats_of (material c)))) (GeometryDispose g)"
    using True by (simp add: dispose_child_alt)
  also have "\<dots> = count_list (child_geometries c) g"
    unfolding 1 count_dispose_materials_g by simp
  finally show ?thesis .
next
  case False
  then have "dispose_child c = []" "child_geometries c = []"
    by (simp_all add: dispose_child_alt child_geometries_def)
  then show ?thesis by simp
qed

lemma count_dispose_child_material:
  "count_list (dispose_child c) (MaterialDispose m) =
     count_list (map mat_id (child_materials c)) m"
proof -
  have "count_list (map GeometryDispose gs) (MaterialDispose m) = 0" for gs
    by (rule count_list_absent) auto
  then show ?thesis
    by (simp add: dispose_child_alt count_dispose_materials_m child_materials_def)
qed

lemma count_dispose_child_texture:
  "count_list (dispose_child c) (TextureDispose t) =
     count_list (map tex_id (present (map mat_map (child_materials c)))) t"
proof -
  have "count_list (map GeometryDispose gs) (TextureDispose t) = 0" for gs
    by (rule count_list_absent) auto
  then show ?thesis
    by (simp add: dispose_child_alt count_dispose_materials_t child_materials_def present_Nil)
qed

lemmas count_dispose_child =
  count_dispose_child_geometry count_dispose_child_material count_dispose_child_texture

lemma concat_filter_if:
  "concat (map f (filter P xs)) = concat (map (\<lambda>x. if P x then f x else []) xs)"
  by (induction xs) simp_all

lemma mesh_geometries_alt: "mesh_geometries obj = concat (map child_geometries (traverse obj))"
proof -
  have "child_geometries =
        (\<lambda>c. if isMesh c then (case geometry c of None \<Rightarrow> [] | Some g \<Rightarrow> [geo_id g]) else [])"
    by (rule ext) (simp add: child_geometries_def)
  then show ?thesis by (simp add: mesh_geometries_def meshes_def concat_filter_if)
qed

lemma map_filter_present: "List.map_filter (\<lambda>e. e) ms = present ms"
  by (induction ms) (auto simp: List.map_filter_def present_def)

lemma present_mats_of: "present (mats_of slot) = slot_entries slot"
  by (cases slot) (simp_all add: mats_of_def slot_entries_def map_filter_present, simp_all add: present_def)

lemma mesh_materials_alt: "mesh_materials obj = concat (map child_materials (traverse obj))"
proof -
  have "child_materials = (\<lambda>c. if isMesh c then slot_entries (material c) else [])"
    by (rule ext) (simp add: child_materials_def present_mats_of)
  then show ?thesis by (simp add: mesh_materials_def meshes_def concat_filter_if)
qed

lemma present_concat: "present (concat xss) = concat (map present xss)"
  by (induction xss) (simp_all add: present_Nil present_append)

lemma map_present: "present (map (map_option f) xs) = map f (present xs)"
  by (induction xs) (auto simp: present_def split: option.splits)

lemma release_counts:
  "count_list (disposeObject3D obj) (GeometryDispose g) = count_list (mesh_geometries obj) g"
  "count_list (disposeObject3D obj) (MaterialDispose m) =
     count_list (map mat_id (mesh_materials obj)) m"
  "count_list (disposeObject3D obj) (TextureDispose t) =
     count_list (map tex_id (mesh_maps obj)) t"
  by (simp_all add: disposeObject3D_def mesh_geometries_alt mesh_materials_alt mesh_maps_def
        count_list_concat map_concat present_concat comp_def count_dispose_child)

lemma only_releases: "filter (\<lambda>c. \<not> is_release c) (disposeObject3D obj) = []"
proof -
  have m: "filter (\<lambda>c. \<not> is_release c) (dispose_material e) = []" for e
    by (simp add: dispose_material_def is_release_def split: option.splits)
  have ms: "filter (\<lambda>c. \<not> is_release c) (concat (map dispose_material es)) = []" for es
    by (induction es) (simp_all add: m)
  have c: "filter (\<lambda>c. \<not> is_release c) (dispose_child x) = []" for x
    by (simp add: dispose_child_def ms) (simp add: is_release_def split: option.splits)
  have "filter (\<lambda>c. \<not> is_release c) (concat (map dispose_child xs)) = []" for xs
    by (induction xs) (simp_all add: c)
  then show ?thesis by (simp add: disposeObject3D_def)
qed

text \<open>
  The routine makes the releases the specification lists, in that order, and none of its
  calls has an absent receiver.
\<close>

lemma forEach_completes:
  assumes "\<And>x. x \<in> set xs \<Longrightarrow> f x = (g x, False)"
  shows "forEach f xs = (concat (map g xs), False)"
  using assms by (induction xs) (simp_all add: and_then_def)

lemma dispose_entry_outcome_completes: "dispose_entry_outcome m = (dispose_material m, False)"
  by (cases m)
     (auto simp: dispose_entry_outcome_def dispose_material_def truthy_def method_call_def
        property_read_def and_then_def map_of_entry_def split: option.splits)

lemma forEach_entries:
  "forEach dispose_entry_outcome ms = (concat (map dispose_material ms), False)"
  by (rule forEach_completes) (rule dispose_entry_outcome_completes)

lemma guarded_call:
  "(if truthy x then method_call x f else ([], False)) =
   (case x of None \<Rightarrow> [] | Some y \<Rightarrow> [f y], False)"
  by (cases x) (simp_all add: truthy_def method_call_def)

lemma and_then_completes: "and_then (xs, False) (ys, b) = (xs @ ys, b)"
  by (simp add: and_then_def)

lemma dispose_child_outcome_completes: "dispose_child_outcome c = (dispose_child c, False)"
proof (cases "isMesh c")
  case True
  then show ?thesis
    unfolding dispose_child_outcome_def dispose_child_def guarded_call forEach_entries
      and_then_completes
    by (simp only: if_True)
next
  case False
  then show ?thesis
    unfolding dispose_child_outcome_def dispose_child_def
    by (simp only: if_False)
qed

lemma disposeObject3D_outcome_completes:
  "disposeObject3D_outcome obj = (disposeObject3D obj, False)"
  unfolding disposeObject3D_outcome_def disposeObject3D_def
  by (rule forEach_completes) (rule dispose_child_outcome_completes)

lemma dispose_materials_entries:
  "concat (map dispose_material ms) = concat (map material_releases (present ms))"
proof (induction ms)
  case Nil
  show ?case by (simp add: present_def)
next
  case (Cons a ms)
  then show ?case
    by (cases a) (simp_all add: present_def dispose_material_def material_releases_def)
qed

lemma dispose_child_releases:
  "dispose_child c = (if isMesh c then mesh_releases c else [])"
  by (simp add: dispose_child_def mesh_releases_def dispose_materials_entries present_mats_of)

lemma disposeObject3D_in_order: "disposeObject3D obj = releases obj"
proof -
  have "dispose_child = (\<lambda>c. if isMesh c then mesh_releases c else [])"
    by (rule ext) (rule dispose_child_releases)
  then show ?thesis
    by (simp add: disposeObject3D_def releases_def meshes_def concat_filter_if)
qed

section \<open>Replacement along the traversal\<close>

lemma replacement_typed:
  "\<not> (isMesh c \<and> is_array (material c)) \<Longrightarrow> replacement c = Some (normal_material c)"
  by (cases "material c")
     (auto simp: replacement_def normal_material_def material_map_def kept_map_def is_array_def
        split: option.splits)

lemma replacement_array:
  "isMesh c \<Longrightarrow> is_array (material c) \<Longrightarrow> replacement c = None"
  by (cases "material c") (auto simp: replacement_def material_map_def is_array_def)

lemma those_map_Some:
  "those (map f xs) = Some ys \<longleftrightarrow> list_all2 (\<lambda>x y. f x = Some y) xs ys"
proof (induction xs arbitrary: ys)
  case Nil
  then show ?case by auto
next
  case (Cons x xs)
  then show ?case by (cases ys) (auto split: option.splits)
qed

lemma those_map_total:
  "(\<And>x. x \<in> set xs \<Longrightarrow> \<exists>y. f x = Some y) \<Longrightarrow> \<exists>ys. those (map f xs) = Some ys"
  by (induction xs) (auto split: option.splits)

lemma concat_map_rel:
  assumes "list_all2 (\<lambda>x y. map F (f x) = map G (g y)) xs ys"
  shows "map F (concat (map f xs)) = map G (concat (map g ys))"
  using assms by (induction rule: list_all2_induct) simp_all

lemma replaceMaterials_traverse:
  "replaceMaterials n = Some n' \<Longrightarrow>
   map (\<lambda>c. (shape c, normal_material c)) (traverse n) =
   map (\<lambda>c. (shape c, material c)) (traverse n')"
proof (induction n arbitrary: n')
  case (Object3D i m g mat p s r cs)
  let ?n = "Object3D i m g mat p s r cs"
  from Object3D.prems obtain mat' cs' where
    mat': "replacement ?n = Some mat'"
    and cs': "those (map replaceMaterials cs) = Some cs'"
    and n': "n' = Object3D i m g mat' p s r cs'"
    by (auto split: option.splits)
  have typed: "\<not> (isMesh ?n \<and> is_array (material ?n))"
    using mat' replacement_array [of ?n] by auto
  have head: "mat' = normal_material ?n"
    using mat' replacement_typed [OF typed] by simp
  have kids: "list_all2 (\<lambda>c c'. replaceMaterials c = Some c') cs cs'"
    using cs' by (simp add: those_map_Some)
  have "list_all2 (\<lambda>c c'. map (\<lambda>c. (shape c, normal_material c)) (traverse c) =
           map (\<lambda>c. (shape c, material c)) (traverse c')) cs cs'"
    using kids Object3D.IH by (auto simp: list_all2_conv_all_nth)
  then have tail: "map (\<lambda>c. (shape c, normal_material c)) (concat (map traverse cs)) =
             map (\<lambda>c. (shape c, material c)) (concat (map traverse cs'))"
    by (rule concat_map_rel)
  have "normal_material ?n = normal_material (Object3D i m g mat p s r cs')" 
    by (simp add: normal_material_def)
  show ?case
    unfolding n' traverse.simps list.map tail
    using head by (simp add: shape_def normal_material_def)
qed

lemma replaceMaterials_total:
  "no_array_mesh n \<Longrightarrow> \<exists>n'. replaceMaterials n = Some n'"
proof (induction n)
  case (Object3D i m g mat p s r cs)
  let ?n = "Object3D i m g mat p s r cs"
  have head: "replacement ?n = Some (normal_material ?n)"
    using Object3D.prems by (intro replacement_typed) (simp add: no_array_mesh_def)
  have "\<exists>y. replaceMaterials c = Some y" if "c \<in> set cs" for c
  proof (rule Object3D.IH [OF that])
    show "no_array_mesh c"
      using Object3D.prems that by (auto simp: no_array_mesh_def list_all_iff)
  qed
  then obtain cs' where "those (map replaceMaterials cs) = Some cs'"
    using those_map_total [of cs replaceMaterials] by blast
  then show ?case using head by simp
qed

lemma traverse_head: "traverse n = n # concat (map traverse (children n))"
  by (cases n) simp

lemma centerAndFit_traverse:
  "map (\<lambda>c. (shape c, material c)) (traverse (centerAndFit n)) =
   map (\<lambda>c. (shape c, material c)) (traverse n)"
  by (subst (1 2) traverse_head)
     (simp add: centerAndFit_def Let_def set_scale_def set_position_def shape_def)

section \<open>Evaluation\<close>

text \<open>The defining equations by which the sample scenes and runs are evaluated.\<close>

lemmas vec_defs = v_add_def v_sub_def v_mul_def v_min_def v_max_def multiplyScalar_def
  setScalar_def v_zero_def v_one_def

lemmas box_defs = setFromObject_def union_box_def applyMatrix4_def computeBoundingBox_def
  geometry_box_def setFromPoints_def expandByPoint_def corners_def matrix_def rotate_y_def
  getCenter_def getSize_def maxDim_def fit_scale_def centerAndFit_def set_position_def
  set_scale_def

lemmas scene_defs = earth_def mars_def comet_def speck_def twins_def sparse_def mesh_node_def
  group_node_def loaded_material_def plank_def slab_def mast_def

lemmas viewer_defs = initial_def container_def useEffect_mount_def animate_def
  handleResize_def cleanup_def loadPlanet_def onLoad_def onError_def answered_def pending_def
  planets_def scene_add_def scene_remove_def set_rotation_y_def

lemmas material_defs = replacement_def material_map_def standard_material_def set_material_def

lemmas dispose_defs = disposeObject3D_def dispose_child_def dispose_material_def mats_of_def

lemma run_consistent: "run es (initial m) = Inr v \<Longrightarrow> consistent v"
  using consistent_initial by (rule consistent_run [rotated])

section \<open>Superseded loads\<close>

text \<open>
  In PlanetViewer.jsx the success callback of a load in flight compares its identifier
  with the one issued last. If they differ the scene it was given goes to
  \<^verbatim>\<open>disposeObject3D\<close> and nothing else changes (the load has been answered, no more); if
  they agree the scene is attached, becomes the displayed planet and loading ends.
\<close>

lemma onLoad_supersession:
  assumes "run es (initial m) = Inr v" and "pending i v"
  shows "i \<noteq> last_issued (calls v) \<Longrightarrow>
           step (LoadSuccess i n) v =
             Inr ((answered i v)\<lparr>calls := calls v @ disposeObject3D n\<rparr>)"
    and "i = last_issued (calls v) \<Longrightarrow> step (LoadSuccess i n) v = Inr v' \<Longrightarrow>
           planets v' = [obj_id n] \<and> map_option obj_id (planetRef v') = Some (obj_id n)
           \<and> calls v' = calls v @ [SceneAdd (obj_id n)] \<and> \<not> loading v'"
proof -
  have c: "currentLoadId v = last_issued (calls v)"
    using run_consistent [OF assms(1)] by (rule consistentD(6))
  show "step (LoadSuccess i n) v =
          Inr ((answered i v)\<lparr>calls := calls v @ disposeObject3D n\<rparr>)"
    if "i \<noteq> last_issued (calls v)"
    using that assms(2) c by (simp add: onLoad_stale answered_fields)
  show "planets v' = [obj_id n] \<and> map_option obj_id (planetRef v') = Some (obj_id n)
           \<and> calls v' = calls v @ [SceneAdd (obj_id n)] \<and> \<not> loading v'"
    if i: "i = last_issued (calls v)" and s: "step (LoadSuccess i n) v = Inr v'"
  proof -
    have cv: "consistent v'"
      using run_consistent [OF assms(1)] s by (rule consistent_step)
    have "onLoad (currentLoadId (answered i v)) n (answered i v) = Inr v'"
      using s assms(2) i c by (simp add: answered_fields)
    then obtain n0 cs where n0: "replaceMaterials n = Some n0"
      and v': "v' = (answered i v)\<lparr>sceneRef := Some (scene_add (obj_id n) cs),
                 calls := calls (answered i v) @ [SceneAdd (obj_id n)],
                 planetRef := Some (centerAndFit n0), loading := False\<rparr>"
      by (rule onLoad_current)
    have oid: "obj_id (centerAndFit n0) = obj_id n"
      using n0 by (simp add: obj_id_centerAndFit obj_id_replaceMaterials)
    have "planets v' = [obj_id (centerAndFit n0)]"
      using consistentD(1) [OF cv] by (simp add: v')
    then show ?thesis by (simp add: v' oid answered_fields)
  qed
qed

text \<open>
  Earth requested, Mars requested before Earth has loaded: when both have arrived Mars
  alone is in the scene, and what was released is Earth's geometry, texture and material.
\<close>

lemma stale_result_disposed:
  "\<exists>v. run swap_run (initial container) = Inr v \<and> planets v = [20] \<and>
     map_option obj_id (planetRef v) = Some 20 \<and>
     filter is_release (calls v) =
       [GeometryDispose 12, TextureDispose 14, MaterialDispose (FromFile 13)]"
  by (simp add: swap_run_def viewer_defs scene_defs material_defs vec_defs box_defs
        dispose_defs Let_def is_release_def)

text \<open>
  Claim C1 (only the result of the load issued last is ever attached; every other result
  is disposed and changes nothing). The second component variant has no identifier to
  compare. Its mount effect requests Earth; Mars is requested before Earth has loaded;
  then Earth's scene arrives and is attached and displayed, and when Mars's scene arrives
  both are in the scene, and nothing has been released.
\<close>

theorem stale_result_attached_v2:
  "(case onLoad_v2 earth
           (loadPlanet_v2 ''../models/mars.glb'' (loadPlanet_v2 ''earth.glb'' mounted_v2)) of
      Inl e \<Rightarrow> None
    | Inr v \<Rightarrow>
        (case onLoad_v2 mars v of
           Inl e \<Rightarrow> None
         | Inr v' \<Rightarrow>
             Some (planets v, map_option obj_id (planetRef v), planets v',
                   filter is_release (calls v')))) =
   Some ([10], Some 10, [10, 20], [])"
  by (simp add: mounted_v2_def loadPlanet_v2_def onLoad_v2_def viewer_defs scene_defs vec_defs
        box_defs Let_def is_release_def)

section \<open>One planet at a time\<close>

text \<open>
  Claim C2: in every state the viewer reaches, whatever the order of requests, answers of
  the loader, frames, resizes and the unmount, at most one planet is attached to the
  scene, and it is the one \<^verbatim>\<open>planetRef\<close> holds.
\<close>

theorem at_most_one_planet:
  assumes "run es (initial m) = Inr v"
  shows "length (planets v) \<le> 1 \<and>
         planets v = (case planetRef v of None \<Rightarrow> [] | Some p \<Rightarrow> [obj_id p])"
proof -
  have "planets v = (case planetRef v of None \<Rightarrow> [] | Some p \<Rightarrow> [obj_id p])"
    using run_consistent [OF assms] by (rule consistentD(1))
  then show ?thesis by (simp split: option.splits)
qed

theorem at_most_one_planet_witness:
  "\<exists>v. run swap_run (initial container) = Inr v \<and> planets v = [20] \<and>
       map_option obj_id (planetRef v) = Some 20 \<and> length (planets v) \<le> 1"
proof -
  have "\<exists>v. run swap_run (initial container) = Inr v \<and> planets v = [20]
          \<and> map_option obj_id (planetRef v) = Some 20"
    by (simp add: swap_run_def viewer_defs scene_defs material_defs vec_defs box_defs
          dispose_defs Let_def)
  then obtain v where r: "run swap_run (initial container) = Inr v"
    and p: "planets v = [20]" "map_option obj_id (planetRef v) = Some 20" by blast
  from at_most_one_planet [OF r] have "length (planets v) \<le> 1" by blast
  with r p show ?thesis by blast
qed

section \<open>Centring and fitting\<close>

text \<open>
  Claim C3 (after normalisation the centre of the bounding box is at the origin). The
  scale of an object acts on its own coordinates, before its position is added. So for
  \<open>comet\<close>, whose box runs from (10, 0, 0) to (12, 2, 2), \<^verbatim>\<open>centerAndFit\<close> leaves position
  (-11, -1, -1) and scale 3/4, and the box then runs from (-7/2, -1, -1) to (-2, 1/2, 1/2):
  its centre is (-11/4, -1/4, -1/4), not the origin. In general, for a root that comes
  unrotated and unscaled, the centre ends at (scale - 1) times the offset of the old centre
  from the old position, as \<open>fit_centre\<close> says: at the origin only for a model centred on
  its own origin, or one whose largest dimension is 1.5 already.
\<close>

theorem centerAndFit_off_centre:
  "map_option (\<lambda>planet. (position (centerAndFit planet), scale (centerAndFit planet),
        setFromObject (centerAndFit planet), getCenter (setFromObject (centerAndFit planet))))
     (replaceMaterials comet) =
   Some (Vector3 (- 11) (- 1) (- 1), Vector3 (3 / 4) (3 / 4) (3 / 4),
         Some (Vector3 (- (7 / 2)) (- 1) (- 1), Vector3 (- 2) (1 / 2) (1 / 2)),
         Vector3 (- (11 / 4)) (- (1 / 4)) (- (1 / 4)))"
  by (simp add: scene_defs material_defs vec_defs box_defs Let_def)

text \<open>
  Claim C4: let \<open>d\<close> be the largest of the width, height and depth of the bounding box
  before the call, 0 for an empty box. If \<open>d\<close> is positive, \<^verbatim>\<open>centerAndFit\<close> sets the scale
  to 1.5 / d on each of the three axes, and for a root that comes with scale 1, as the
  loader builds it, wherever it stands and however it is turned, the largest of the width,
  height and depth of the box after the call is 1.5. If \<open>d\<close> is not positive, the scale is
  set to 1 on each axis. The samples are boxes whose largest extent is the width, the
  height and the depth in turn, and a single point.
\<close>

theorem centerAndFit_scale:
  assumes "d = largest_extent (setFromObject obj)"
  shows "(0 < d \<longrightarrow>
            scale (centerAndFit obj) = Vector3 (3 / 2 / d) (3 / 2 / d) (3 / 2 / d) \<and>
            (scale obj = Vector3 1 1 1 \<longrightarrow>
               largest_extent (setFromObject (centerAndFit obj)) = 3 / 2)) \<and>
         (d \<le> 0 \<longrightarrow> scale (centerAndFit obj) = Vector3 1 1 1)"
  using assms largest_extent_fit [of obj d]
  by (simp add: scale_centerAndFit fit_scale_def largest_extent_maxDim setScalar_def v_one_def)

theorem centerAndFit_scale_witness:
  "setFromObject plank = Some (Vector3 0 0 0, Vector3 6 1 2) \<and>
   scale (centerAndFit plank) = Vector3 (1 / 4) (1 / 4) (1 / 4) \<and>
   largest_extent (setFromObject (centerAndFit plank)) = 3 / 2 \<and>
   setFromObject slab = Some (Vector3 0 0 0, Vector3 1 3 2) \<and>
   scale (centerAndFit slab) = Vector3 (1 / 2) (1 / 2) (1 / 2) \<and>
   largest_extent (setFromObject (centerAndFit slab)) = 3 / 2 \<and>
   setFromObject mast = Some (Vector3 0 0 0, Vector3 2 1 4) \<and>
   scale (centerAndFit mast) = Vector3 (3 / 8) (3 / 8) (3 / 8) \<and>
   largest_extent (setFromObject (centerAndFit mast)) = 3 / 2 \<and>
   setFromObject speck = Some (Vector3 3 4 5, Vector3 3 4 5) \<and>
   scale (centerAndFit speck) = Vector3 1 1 1"
proof -
  have boxes:
    "setFromObject plank = Some (Vector3 0 0 0, Vector3 6 1 2)"
    "setFromObject slab = Some (Vector3 0 0 0, Vector3 1 3 2)"
    "setFromObject mast = Some (Vector3 0 0 0, Vector3 2 1 4)"
    "setFromObject speck = Some (Vector3 3 4 5, Vector3 3 4 5)"
    by (simp_all add: scene_defs vec_defs box_defs)
  have p: "(6::real) = largest_extent (setFromObject plank)"
    and s: "(3::real) = largest_extent (setFromObject slab)"
    and m: "(4::real) = largest_extent (setFromObject mast)"
    and z: "(0::real) = largest_extent (setFromObject speck)"
    by (simp_all add: boxes largest_extent_def)
  have unscaled: "scale plank = Vector3 1 1 1" "scale slab = Vector3 1 1 1"
    "scale mast = Vector3 1 1 1"
    by (simp_all add: scene_defs v_one_def)
  show ?thesis
    using centerAndFit_scale [OF p] centerAndFit_scale [OF s] centerAndFit_scale [OF m]
      centerAndFit_scale [OF z] unscaled boxes
    by simp
qed

section \<open>Disposal\<close>

text \<open>
  Claim C5, as amended: \<^verbatim>\<open>disposeObject3D\<close> runs to its end without a throw, and the calls
  it makes are exactly \<open>releases\<close>, in that order: mesh by mesh along the traversal, for
  each mesh its geometry if it has one, then the materials of its slot (none for an absent
  material, the entries that are not \<^verbatim>\<open>null\<close> for an array, in the array's order), each
  material after its own texture if it has one. A geometry, material or texture is
  therefore released as many times as the subtree refers to it through its meshes: at
  least once, and exactly once when one mesh alone refers to it. Nothing else is called. A
  mesh without geometry, an absent material, a \<^verbatim>\<open>null\<close> entry of an array and a material
  without texture each contribute no call and no throw.
\<close>

theorem disposeObject3D_releases:
  "disposeObject3D_outcome obj = (releases obj, False) \<and>
   disposeObject3D obj = releases obj \<and>
   count_list (releases obj) (GeometryDispose g) = count_list (mesh_geometries obj) g \<and>
   count_list (releases obj) (MaterialDispose m) =
     count_list (map mat_id (mesh_materials obj)) m \<and>
   count_list (releases obj) (TextureDispose t) =
     count_list (map tex_id (mesh_maps obj)) t \<and>
   filter (\<lambda>c. \<not> is_release c) (releases obj) = []"
  using release_counts [of obj] only_releases [of obj]
  by (simp add: disposeObject3D_outcome_completes disposeObject3D_in_order)

text \<open>
  The claim as it was stated, every distinct material and texture exactly once, fails
  where two meshes share a material: for \<open>twins\<close> the one material and its one texture
  are each released twice.
\<close>

theorem shared_material_released_twice:
  "map mat_id (mesh_materials twins) = [FromFile 43, FromFile 43] \<and>
   map tex_id (mesh_maps twins) = [44, 44] \<and>
   count_list (disposeObject3D twins) (MaterialDispose (FromFile 43)) = 2 \<and>
   count_list (disposeObject3D twins) (TextureDispose 44) = 2"
  by (simp add: scene_defs dispose_defs mesh_materials_def mesh_maps_def meshes_def
        slot_entries_def present_def)

text \<open>
  The optional parts, missing: \<open>sparse\<close> is disposed without any call for them, and without
  a throw. The inline release of the vanilla script is another routine: it never releases
  a texture, and it throws on the \<^verbatim>\<open>null\<close> entry.
\<close>

lemma releases_examples:
  "releases twins =
     [GeometryDispose 45, TextureDispose 44, MaterialDispose (FromFile 43),
      GeometryDispose 46, TextureDispose 44, MaterialDispose (FromFile 43)]"
  "releases sparse = [GeometryDispose 63, MaterialDispose (FromFile 64)]"
  "disposeObject3D_outcome sparse = ([GeometryDispose 63, MaterialDispose (FromFile 64)], False)"
  by (simp_all add: scene_defs releases_def mesh_releases_def material_releases_def
       slot_entries_def meshes_def List.map_filter_def disposeObject3D_outcome_def
       dispose_child_outcome_def dispose_entry_outcome_def truthy_def method_call_def
       property_read_def and_then_def map_of_entry_def mats_of_def)

lemma disposeObject3D_optional_fields:
  "disposeObject3D sparse = [GeometryDispose 63, MaterialDispose (FromFile 64)]"
  by (simp add: scene_defs dispose_defs)

lemma release_inline_no_textures:
  "filter (\<lambda>c. case c of TextureDispose t \<Rightarrow> True | _ \<Rightarrow> False) (fst (release_inline obj)) = []"
proof -
  let ?T = "\<lambda>c. case c of TextureDispose t \<Rightarrow> True | _ \<Rightarrow> False"
  have e: "filter ?T (fst (dispose_entries ms)) = []" for ms
    by (induction ms rule: dispose_entries.induct) (auto split: prod.splits)
  have c: "filter ?T (fst (release_child x)) = []" for x
  proof (cases "material x")
    case (Multi ms)
    then show ?thesis
      using e [of ms]
      by (cases "dispose_entries ms") (auto simp: release_child_def Let_def split: option.splits)
  qed (auto simp: release_child_def Let_def split: option.splits)
  have "filter ?T (fst (until_throw rs)) = []" if "\<forall>r \<in> set rs. filter ?T (fst r) = []" for rs
    using that by (induction rs rule: until_throw.induct) (auto split: prod.splits)
  then show ?thesis by (simp add: release_inline_def c)
qed

lemma release_inline_examples:
  "release_inline twins =
     ([GeometryDispose 45, MaterialDispose (FromFile 43),
       GeometryDispose 46, MaterialDispose (FromFile 43)], False)"
  "release_inline sparse = ([GeometryDispose 63], True)"
  by (simp_all add: scene_defs release_inline_def release_child_def)

section \<open>Requesting a load\<close>

text \<open>
  Claim C6: when \<^verbatim>\<open>loadPlanet\<close> is called in a state the viewer can reach and a planet is
  displayed, then, before the file goes to the loader, the planet is removed from the
  scene, handed to \<^verbatim>\<open>disposeObject3D\<close> and forgotten by \<^verbatim>\<open>planetRef\<close>. All of it has happened
  when the call returns, whatever the loader answers later.
\<close>

theorem loadPlanet_retires_displayed:
  assumes "run es (initial m) = Inr v" and "planetRef v = Some p"
  shows "\<exists>cs. sceneRef v = Some cs \<and>
           loadPlanet file v =
             v\<lparr>loading := True, currentLoadId := currentLoadId v + 1,
               sceneRef := Some (scene_remove (obj_id p) cs),
               calls := calls v @ [SceneRemove (obj_id p)] @ disposeObject3D p
                          @ [LoaderLoad file (Some (currentLoadId v + 1))],
               planetRef := None,
               inflight := inflight v @ [(currentLoadId v + 1, file)]\<rparr> \<and>
           planets (loadPlanet file v) = []"
proof -
  have c: "consistent v" using assms(1) by (rule run_consistent)
  have "planets v = [obj_id p]" using consistentD(1) [OF c] assms(2) by simp
  then obtain cs where cs: "sceneRef v = Some cs" and ids: "planet_ids cs = [obj_id p]"
    by (cases "sceneRef v") (simp_all add: planets_alt)
  have "planets (loadPlanet file v) = []"
    using ids by (simp add: planets_alt loadPlanet_fields [OF cs] assms(2) planet_ids_scene_remove)
  moreover have "loadPlanet file v =
             v\<lparr>loading := True, currentLoadId := currentLoadId v + 1,
               sceneRef := Some (scene_remove (obj_id p) cs),
               calls := calls v @ [SceneRemove (obj_id p)] @ disposeObject3D p
                          @ [LoaderLoad file (Some (currentLoadId v + 1))],
               planetRef := None,
               inflight := inflight v @ [(currentLoadId v + 1, file)]\<rparr>"
    using cs assms(2) by (simp add: loadPlanet_def Let_def)
  ultimately show ?thesis using cs by blast
qed

theorem loadPlanet_retires_displayed_witness:
  "\<exists>v p. run shown_run (initial container) = Inr v \<and> planetRef v = Some p \<and>
     planets v = [10] \<and> planets (loadPlanet ''/models/venus.glb'' v) = [] \<and>
     planetRef (loadPlanet ''/models/venus.glb'' v) = None"
proof -
  have "\<exists>v p. run shown_run (initial container) = Inr v \<and> planetRef v = Some p
      \<and> planets v = [10]"
    by (simp add: shown_run_def viewer_defs scene_defs material_defs vec_defs box_defs
          dispose_defs Let_def)
  then obtain v p where r: "run shown_run (initial container) = Inr v"
    and p: "planetRef v = Some p" and q: "planets v = [10]" by blast
  from loadPlanet_retires_displayed [OF r p, of "''/models/venus.glb''"]
  obtain cs where "loadPlanet ''/models/venus.glb'' v =
             v\<lparr>loading := True, currentLoadId := currentLoadId v + 1,
               sceneRef := Some (scene_remove (obj_id p) cs),
               calls := calls v @ [SceneRemove (obj_id p)] @ disposeObject3D p
                          @ [LoaderLoad ''/models/venus.glb'' (Some (currentLoadId v + 1))],
               planetRef := None,
               inflight := inflight v @ [(currentLoadId v + 1, ''/models/venus.glb'')]\<rparr>"
    and "planets (loadPlanet ''/models/venus.glb'' v) = []" by blast
  then have "planets (loadPlanet ''/models/venus.glb'' v) = [] \<and>
     planetRef (loadPlanet ''/models/venus.glb'' v) = None" by simp
  with r p q show ?thesis by blast
qed

section \<open>Materials of an arriving scene\<close>

text \<open>
  Claim C7: when a scene with one material per mesh at most arrives for the current load,
  the planet that is attached and displayed has the nodes of that scene, with the same
  ids and geometry, and every mesh among them carries a new standard material with
  roughness 0.7, metalness 0.1, emissive black, and as texture the one of the mesh's
  original material if it had one (tagged sRGB), none otherwise; the other nodes keep
  their material.
\<close>

theorem onLoad_replaces_materials:
  assumes "sceneRef v = Some cs" and "no_array_mesh n"
  shows "\<exists>planet.
           onLoad (currentLoadId v) n v =
             Inr (v\<lparr>sceneRef := Some (scene_add (obj_id planet) cs),
                    calls := calls v @ [SceneAdd (obj_id planet)],
                    planetRef := Some planet, loading := False\<rparr>) \<and>
           map (\<lambda>c. (shape c, material c)) (traverse planet) =
             map (\<lambda>c. (shape c,
                    if isMesh c
                    then Single \<lparr>mat_id = NewFor (obj_id c), mat_kind = MeshStandardMaterial,
                                  mat_map = kept_map (material c), roughness = 7 / 10,
                                  metalness = 1 / 10, emissive = 0\<rparr>
                    else material c)) (traverse n)"
proof -
  from assms(2) obtain n0 where n0: "replaceMaterials n = Some n0"
    using replaceMaterials_total by blast
  have t: "map (\<lambda>c. (shape c, material c)) (traverse (centerAndFit n0)) =
        map (\<lambda>c. (shape c, normal_material c)) (traverse n)"
    using replaceMaterials_traverse [OF n0] by (simp add: centerAndFit_traverse)
  have nm: "normal_material = (\<lambda>c. if isMesh c
                    then Single \<lparr>mat_id = NewFor (obj_id c), mat_kind = MeshStandardMaterial,
                                  mat_map = kept_map (material c), roughness = 7 / 10,
                                  metalness = 1 / 10, emissive = 0\<rparr>
                    else material c)"
    by (rule ext) (simp add: normal_material_def standard_material_def)
  have o: "onLoad (currentLoadId v) n v =
             Inr (v\<lparr>sceneRef := Some (scene_add (obj_id (centerAndFit n0)) cs),
                    calls := calls v @ [SceneAdd (obj_id (centerAndFit n0))],
                    planetRef := Some (centerAndFit n0), loading := False\<rparr>)"
    using assms(1) n0 by (simp add: onLoad_def Let_def)
  show ?thesis
    by (rule exI [of _ "centerAndFit n0"]) (rule conjI [OF o t [unfolded nm]])
qed

theorem onLoad_replaces_materials_witness:
  "\<exists>v planet. run overtaken_run (initial container) = Inr v \<and> no_array_mesh earth \<and>
     onLoad (currentLoadId v) earth v =
       Inr (v\<lparr>sceneRef := Some (scene_add (obj_id planet) [DirectionalLight, AmbientLight]),
              calls := calls v @ [SceneAdd (obj_id planet)],
              planetRef := Some planet, loading := False\<rparr>) \<and>
     map material (traverse planet) =
       [NoMaterial,
        Single (standard_material 11
          (Some \<lparr>tex_id = 14, colorSpace = SRGBColorSpace, needsUpdate = True\<rparr>))]"
proof -
  have "\<exists>v. run overtaken_run (initial container) = Inr v \<and>
      sceneRef v = Some [DirectionalLight, AmbientLight]"
    by (simp add: overtaken_run_def viewer_defs Let_def)
  then obtain v where r: "run overtaken_run (initial container) = Inr v"
    and s: "sceneRef v = Some [DirectionalLight, AmbientLight]" by blast
  have a: "no_array_mesh earth"
    by (simp add: no_array_mesh_def scene_defs is_array_def)
  from onLoad_replaces_materials [OF s a] obtain planet where
    o: "onLoad (currentLoadId v) earth v =
       Inr (v\<lparr>sceneRef := Some (scene_add (obj_id planet) [DirectionalLight, AmbientLight]),
              calls := calls v @ [SceneAdd (obj_id planet)],
              planetRef := Some planet, loading := False\<rparr>)"
    and m: "map (\<lambda>c. (shape c, material c)) (traverse planet) =
             map (\<lambda>c. (shape c,
                    if isMesh c
                    then Single \<lparr>mat_id = NewFor (obj_id c), mat_kind = MeshStandardMaterial,
                                  mat_map = kept_map (material c), roughness = 7 / 10,
                                  metalness = 1 / 10, emissive = 0\<rparr>
                    else material c)) (traverse earth)"
    by blast
  have "map material (traverse planet) =
        map snd (map (\<lambda>c. (shape c, material c)) (traverse planet))"
    by (simp add: comp_def)
  also have "\<dots> = [NoMaterial,
        Single (standard_material 11
          (Some \<lparr>tex_id = 14, colorSpace = SRGBColorSpace, needsUpdate = True\<rparr>))]"
    unfolding m by (simp add: scene_defs kept_map_def standard_material_def)
  finally have f: "map material (traverse planet) =
      [NoMaterial,
       Single (standard_material 11
         (Some \<lparr>tex_id = 14, colorSpace = SRGBColorSpace, needsUpdate = True\<rparr>))]" .
  show ?thesis
    by (intro exI [of _ v] exI [of _ planet] conjI r a o f)
qed

section \<open>Failed loads\<close>

text \<open>
  Claim C8: when the loader reports the failure of a load in flight, in a state the viewer
  can reach, the error is logged and the scene, the displayed planet and the counter stay
  as they are. If the load is the current one, loading ends and nothing is displayed; if
  it is stale, no variable of the viewer changes: the load is no longer in flight and the
  error has been logged, that is all.
\<close>

theorem onError_effect:
  assumes "run es (initial m) = Inr v" and "pending i v"
  shows "\<exists>v'. step (LoadFailure i err) v = Inr v' \<and>
           sceneRef v' = sceneRef v \<and> planetRef v' = planetRef v \<and>
           planets v' = planets v \<and> currentLoadId v' = currentLoadId v \<and>
           calls v' = calls v @ [ConsoleError err] \<and>
           (if i = currentLoadId v
            then \<not> loading v' \<and> planetRef v' = None \<and> planets v' = []
            else v' = (answered i v)\<lparr>calls := calls v @ [ConsoleError err]\<rparr>)"
proof -
  let ?v' = "onError i err (answered i v)"
  have c: "consistent v" using assms(1) by (rule run_consistent)
  have s: "step (LoadFailure i err) v = Inr ?v'" using assms(2) by simp
  have pl: "planets ?v' = planets v"
    by (rule planets_cong) (simp add: onError_fields answered_fields)
  have cur: "planetRef v = None \<and> planets v = []" if "i = currentLoadId v"
    using that consistentD(4) [OF c] consistentD(1) [OF c] assms(2) by simp
  have stale: "?v' = (answered i v)\<lparr>calls := calls v @ [ConsoleError err]\<rparr>"
    if "i \<noteq> currentLoadId v"
    using that by (simp add: onError_def answered_fields)
  show ?thesis
    using s pl cur stale by (auto simp: onError_fields answered_fields)
qed

theorem onError_effect_witness:
  "\<exists>v v2 v1. run overtaken_run (initial container) = Inr v \<and> currentLoadId v = 2 \<and> loading v \<and>
     pending 2 v \<and> step (LoadFailure 2 ''404'') v = Inr v2 \<and> \<not> loading v2 \<and>
     planetRef v2 = None \<and> planets v2 = [] \<and>
     pending 1 v \<and> step (LoadFailure 1 ''404'') v = Inr v1 \<and> loading v1 \<and>
     sceneRef v1 = sceneRef v \<and> planetRef v1 = planetRef v"
proof -
  have "\<exists>v. run overtaken_run (initial container) = Inr v \<and> currentLoadId v = 2 \<and> loading v
      \<and> pending 2 v \<and> pending 1 v"
    by (simp add: overtaken_run_def viewer_defs Let_def)
  then obtain v where r: "run overtaken_run (initial container) = Inr v"
    and c: "currentLoadId v = 2" and l: "loading v" and p2: "pending 2 v" and p1: "pending 1 v"
    by blast
  from onError_effect [OF r p2, of "''404''"] c obtain v2 where
    "step (LoadFailure 2 ''404'') v = Inr v2 \<and> \<not> loading v2 \<and> planetRef v2 = None \<and> planets v2 = []"
    by auto
  moreover from onError_effect [OF r p1, of "''404''"] c l obtain v1 where
    "step (LoadFailure 1 ''404'') v = Inr v1 \<and> loading v1 \<and>
     sceneRef v1 = sceneRef v \<and> planetRef v1 = planetRef v"
    by (auto simp: answered_fields)
  ultimately show ?thesis using r c l p1 p2 by blast
qed

section \<open>Frames and resizes\<close>

text \<open>
  Claim C9: a frame adds 0.001 to the rotation about the y axis of the displayed planet if
  there is one and changes \<^verbatim>\<open>planetRef\<close> in no other way; neither a frame nor a resize
  changes the counter, the loading flag, the loads in flight, the scene's children or
  which object \<^verbatim>\<open>planetRef\<close> holds.
\<close>

theorem frame_and_resize_keep_load_state:
  "planetRef (animate v) =
     map_option (\<lambda>p. set_rotation_y (rotation_y p + 1 / 1000) p) (planetRef v) \<and>
   map_option rotation_y (planetRef (animate v)) =
     map_option (\<lambda>p. rotation_y p + 1 / 1000) (planetRef v) \<and>
   map_option obj_id (planetRef (animate v)) = map_option obj_id (planetRef v) \<and>
   currentLoadId (animate v) = currentLoadId v \<and> loading (animate v) = loading v \<and>
   inflight (animate v) = inflight v \<and> sceneRef (animate v) = sceneRef v \<and>
   planetRef (handleResize v) = planetRef v \<and>
   currentLoadId (handleResize v) = currentLoadId v \<and>
   loading (handleResize v) = loading v \<and> inflight (handleResize v) = inflight v \<and>
   sceneRef (handleResize v) = sceneRef v"
  by (simp add: animate_fields handleResize_fields option.map_comp comp_def set_rotation_y_def)

section \<open>No scene yet\<close>

text \<open>
  Claim C10: without a scene \<^verbatim>\<open>loadPlanet\<close> returns at its first line and leaves every
  variable of the viewer as it was: no identifier is issued, loading is not set, nothing
  is removed or disposed, nothing goes to the loader. The same holds in the second
  variant.
\<close>

theorem loadPlanet_without_scene:
  assumes "sceneRef v = None"
  shows "loadPlanet file v = v \<and> loadPlanet_v2 file v = v"
  using assms by (simp add: loadPlanet_def loadPlanet_v2_def)

theorem loadPlanet_without_scene_witness:
  "sceneRef (initial container) = None \<and>
   loadPlanet ''/models/earth.glb'' (initial container) = initial container \<and>
   loadPlanet_v2 ''earth.glb'' (initial container) = initial container"
proof -
  have n: "sceneRef (initial container) = None" by (simp add: initial_def)
  from loadPlanet_without_scene [OF n] n show ?thesis by simp
qed

end
